theory Spec2Isabelle
  imports Main "HOL-Library.Sublist"
begin

section \<open>Data model\<close>

text \<open>
  The seed script is JavaScript over the Strapi framework. Values are dynamically typed,
  so the model has one datatype of values. Strings are lists of 8-bit characters; the
  line terminators a regular expression's dot refuses are therefore LF and CR (the code
  points U+2028 and U+2029 lie outside this character type). Numbers are never
  inspected by the script and are kept as integers.
\<close>

datatype error =
    TypeError
  | ENOENT string
  | StoreError
  | QueryError
  | UploadError
  | CreateError

text \<open>An entry of the framework's asset store (\<open>plugin::upload.file\<close>).\<close>

record asset =
  asset_id :: nat
  asset_name :: string
  asset_alternativeText :: string
  asset_caption :: string
  asset_mime :: "string option"
  asset_extension :: string
  asset_size :: nat

text \<open>
  \<open>JObj\<close> is plain nested data, compared by value. \<open>JRef a\<close> is an object of the
  heap, at address \<open>a\<close>: content blocks are heap objects, so that copying a block and
  writing to the copy can be told apart from writing to the block itself. \<open>JFile\<close>
  is an asset record as the asset store returns it.
\<close>

datatype jsval =
    JUndefined
  | JNull
  | JBool bool
  | JNum int
  | JStr string
  | JArr "jsval list"
  | JObj "(string \<times> jsval) list"
  | JFile asset
  | JRef nat

type_synonym obj = "(string \<times> jsval) list"

text \<open>The object \<open>getFileData\<close> builds (lines 65-72).\<close>

record fileData =
  fd_filepath :: string
  fd_originalFilename :: string
  fd_type :: "string option"
  fd_mimetype :: "string option"
  fd_ext :: string
  fd_size :: nat

text \<open>What \<open>console.log\<close> and \<open>console.error\<close> print.\<close>

datatype logline =
    Log string
  | ErrorDocument string jsval error
  | ErrorValue error

text \<open>
  The state the script reads and writes: the plugin store's \<open>initHasRun\<close> key
  (\<open>None\<close> when the key is unset), the public role's id, the permission records, the
  asset store, the calls made to the upload service, the content store's documents, the
  console, and the heap of block objects (an address is an index).
\<close>

record world =
  initHasRun :: "jsval option"
  public_role :: "nat option"
  permissions :: "(string \<times> nat) list"
  assets :: "asset list"
  upload_calls :: "(fileData \<times> string) list"
  documents :: "(string \<times> jsval \<times> string) list"
  console :: "logline list"
  heap :: "obj list"

text \<open>
  The collaborators outside the repository, taken as parameters: which framework calls
  fail (each may depend on the state and on its arguments), the file system
  (\<open>fs.statSync\<close>: the size of the file at a path, \<open>None\<close> when there is none),
  \<open>path.join\<close>, \<open>path.resolve\<close>, \<open>mime.lookup\<close> (\<open>None\<close> for JavaScript's
  \<open>false\<close>), the clock behind \<open>Date.now()\<close>, and the string conversion of the values
  that are not strings.
\<close>

record env =
  store_get_fails :: "world \<Rightarrow> bool"
  store_set_fails :: "world \<Rightarrow> bool"
  role_query_fails :: "world \<Rightarrow> bool"
  permission_create_fails :: "world \<Rightarrow> string \<Rightarrow> nat \<Rightarrow> bool"
  file_query_fails :: "world \<Rightarrow> string \<Rightarrow> bool"
  upload_fails :: "world \<Rightarrow> fileData \<Rightarrow> string \<Rightarrow> bool"
  create_fails :: "world \<Rightarrow> string \<Rightarrow> jsval \<Rightarrow> bool"
  statSync :: "string \<Rightarrow> nat option"
  path_join :: "string list \<Rightarrow> string"
  path_resolve :: "string \<Rightarrow> string"
  mime_lookup :: "string \<Rightarrow> string option"
  now :: int
  toString :: "jsval \<Rightarrow> string"

text \<open>The contents of \<open>../data/data.json\<close> (lines 7-13).\<close>

record seed =
  categories :: "jsval list"
  authors :: "jsval list"
  articles :: "jsval list"
  global :: jsval
  about :: jsval

type_synonym 'a io = "world \<Rightarrow> (error + 'a) \<times> world"

section \<open>JavaScript primitives\<close>

text \<open>\<open>await m\<close> followed by the rest of the function: a rejection of \<open>m\<close> is thrown on.\<close>

definition await :: "'a io \<Rightarrow> ('a \<Rightarrow> 'b io) \<Rightarrow> 'b io" where
  "await m f w = (case m w of (Inl e, w1) \<Rightarrow> (Inl e, w1) | (Inr x, w1) \<Rightarrow> f x w1)"

definition return :: "'a \<Rightarrow> 'a io" where
  "return x w = (Inr x, w)"

text \<open>\<open>try { m } catch (error) { h(error) }\<close>.\<close>

definition try_catch :: "'a io \<Rightarrow> (error \<Rightarrow> 'a io) \<Rightarrow> 'a io" where
  "try_catch m h w = (case m w of (Inl e, w1) \<Rightarrow> h e w1 | (Inr x, w1) \<Rightarrow> (Inr x, w1))"

definition console_log :: "string \<Rightarrow> unit io" where
  "console_log s w = (Inr (), w\<lparr>console := console w @ [Log s]\<rparr>)"

definition console_error :: "logline \<Rightarrow> unit io" where
  "console_error l w = (Inr (), w\<lparr>console := console w @ [l]\<rparr>)"

text \<open>\<open>for (const x of xs) { await body(x) }\<close>.\<close>

fun for_of :: "('a \<Rightarrow> unit io) \<Rightarrow> 'a list \<Rightarrow> unit io" where
  "for_of body [] w = (Inr (), w)"
| "for_of body (x # xs) w =
     (case body x w of (Inl e, w1) \<Rightarrow> (Inl e, w1) | (Inr u, w1) \<Rightarrow> for_of body xs w1)"

text \<open>JavaScript's truthiness, for \<open>!initHasRun\<close>.\<close>

fun truthy :: "jsval \<Rightarrow> bool" where
  "truthy JUndefined = False"
| "truthy JNull = False"
| "truthy (JBool b) = b"
| "truthy (JNum n) = (n \<noteq> 0)"
| "truthy (JStr s) = (s \<noteq> [])"
| "truthy v = True"

text \<open>\<open>o[k]\<close> on the fields of an object: \<open>undefined\<close> when the key is absent.\<close>

definition field :: "obj \<Rightarrow> string \<Rightarrow> jsval" where
  "field fs k = (case map_of fs k of None \<Rightarrow> JUndefined | Some v \<Rightarrow> v)"

text \<open>\<open>o[k] = v\<close>: an existing key keeps its place, a new one goes last.\<close>

fun set_field :: "string \<Rightarrow> jsval \<Rightarrow> obj \<Rightarrow> obj" where
  "set_field k v [] = [(k, v)]"
| "set_field k v ((k', v') # fs) =
     (if k' = k then (k, v) # fs else (k', v') # set_field k v fs)"

text \<open>The decimal numeral of an index, as a property key.\<close>

fun show_nat :: "nat \<Rightarrow> string" where
  "show_nat n =
     (if n < 10 then [char_of (48 + n)]
      else show_nat (n div 10) @ [char_of (48 + n mod 10)])"

declare show_nat.simps [simp del]

text \<open>The enumerable own properties of an array or of a string: its indices.\<close>

definition indexed :: "jsval list \<Rightarrow> obj" where
  "indexed vs = map (\<lambda>i. (show_nat i, vs ! i)) [0..<length vs]"

text \<open>An asset record as an object.\<close>

definition asset_fields :: "asset \<Rightarrow> obj" where
  "asset_fields a =
     [(''id'', JNum (int (asset_id a))),
      (''name'', JStr (asset_name a)),
      (''alternativeText'', JStr (asset_alternativeText a)),
      (''caption'', JStr (asset_caption a)),
      (''mime'', (case asset_mime a of None \<Rightarrow> JBool False | Some m \<Rightarrow> JStr m)),
      (''ext'', JStr (asset_extension a)),
      (''size'', JNum (int (asset_size a)))]"

text \<open>
  The own enumerable properties \<open>{...v}\<close> copies: the fields of an object, the
  indices of an array or of a string, none of another primitive. An address outside
  the heap stands for no object.
\<close>

fun own_fields :: "world \<Rightarrow> jsval \<Rightarrow> obj" where
  "own_fields w (JObj fs) = fs"
| "own_fields w (JRef a) = (if a < length (heap w) then heap w ! a else [])"
| "own_fields w (JFile a) = asset_fields a"
| "own_fields w (JArr vs) = indexed vs"
| "own_fields w (JStr s) = indexed (map (\<lambda>c. JStr [c]) s)"
| "own_fields w v = []"

text \<open>
  \<open>v.k\<close> for the keys the script reads (\<open>__component\<close>, \<open>file\<close>, \<open>files\<close>,
  \<open>slug\<close>, \<open>blocks\<close>, \<open>avatar\<close>, \<open>defaultSeo\<close>, none of them a property of a
  string, an array, a number or a boolean): a TypeError on \<open>undefined\<close> and \<open>null\<close>
  (and on an address outside the heap), the field of an object, \<open>undefined\<close> on any
  other value.
\<close>

fun get_prop :: "world \<Rightarrow> jsval \<Rightarrow> string \<Rightarrow> error + jsval" where
  "get_prop w JUndefined k = Inl TypeError"
| "get_prop w JNull k = Inl TypeError"
| "get_prop w (JObj fs) k = Inr (field fs k)"
| "get_prop w (JFile a) k = Inr (field (asset_fields a) k)"
| "get_prop w (JRef a) k =
     (if a < length (heap w) then Inr (field (heap w ! a) k) else Inl TypeError)"
| "get_prop w v k = Inr JUndefined"

text \<open>A new heap object with the given fields; its address is returned.\<close>

definition alloc :: "obj \<Rightarrow> world \<Rightarrow> nat \<times> world" where
  "alloc fs w = (length (heap w), w\<lparr>heap := heap w @ [fs]\<rparr>)"

text \<open>\<open>o.k = v\<close> on the heap object at address \<open>a\<close>.\<close>

definition set_prop :: "nat \<Rightarrow> string \<Rightarrow> jsval \<Rightarrow> world \<Rightarrow> world" where
  "set_prop a k v w = w\<lparr>heap := (heap w)[a := set_field k v (heap w ! a)]\<rparr>"

text \<open>
  \<open>[...v]\<close>: the elements of an array, the characters of a string, a TypeError on a
  value that is not iterable.
\<close>

fun spread :: "jsval \<Rightarrow> error + jsval list" where
  "spread (JArr vs) = Inr vs"
| "spread (JStr s) = Inr (map (\<lambda>c. JStr [c]) s)"
| "spread v = Inl TypeError"

text \<open>A template literal's \<open>${v}\<close>.\<close>

fun template :: "env \<Rightarrow> jsval \<Rightarrow> string" where
  "template env (JStr s) = s"
| "template env JUndefined = ''undefined''"
| "template env JNull = ''null''"
| "template env (JBool b) = (if b then ''true'' else ''false'')"
| "template env v = toString env v"

text \<open>\<open>s.split('.')\<close>: never empty.\<close>

fun split_dot :: "string \<Rightarrow> string list" where
  "split_dot [] = [[]]"
| "split_dot (c # cs) =
     (if c = CHR ''.'' then [] # split_dot cs
      else (case split_dot cs of [] \<Rightarrow> [[c]] | s # ss \<Rightarrow> (c # s) # ss))"

definition is_line_terminator :: "char \<Rightarrow> bool" where
  "is_line_terminator c = (c = CHR 0x0A \<or> c = CHR 0x0D)"

text \<open>
  \<open>fileName.replace(/\..*$/, '')\<close> (line 113). The pattern matches at the leftmost dot
  from which \<open>.*\<close> reaches the end of the string; the dot of a regular expression
  matches no line terminator and \<open>$\<close>, without the \<open>m\<close> flag, only the end of the
  string, so that is the first dot with no line terminator after it. The match is
  removed; a string with no such dot is returned as it is.
\<close>

fun strip_extension :: "string \<Rightarrow> string" where
  "strip_extension [] = []"
| "strip_extension (c # cs) =
     (if c = CHR ''.'' \<and> \<not> list_ex is_line_terminator cs then []
      else c # strip_extension cs)"

section \<open>The run-once guard (lines 15-24)\<close>

text \<open>
  Modelled from the spec: the framework's persistent configuration store (section 4.1,
  get and set by key). An unset key reads as \<open>null\<close>.
\<close>

definition pluginStore_get :: "env \<Rightarrow> jsval io" where
  "pluginStore_get env w =
     (if store_get_fails env w then (Inl StoreError, w)
      else (Inr (case initHasRun w of None \<Rightarrow> JNull | Some v \<Rightarrow> v), w))"

definition pluginStore_set :: "env \<Rightarrow> jsval \<Rightarrow> unit io" where
  "pluginStore_set env v w =
     (if store_set_fails env w then (Inl StoreError, w)
      else (Inr (), w\<lparr>initHasRun := Some v\<rparr>))"

definition isFirstRun :: "env \<Rightarrow> bool io" where
  "isFirstRun env =
     await (pluginStore_get env) (\<lambda>initHasRun.
     await (pluginStore_set env (JBool True)) (\<lambda>_.
     return (\<not> truthy initHasRun)))"

section \<open>The file resolver (lines 53-131)\<close>

definition getFileData :: "env \<Rightarrow> string \<Rightarrow> error + fileData" where
  "getFileData env fileName =
     (let filePath = path_join env [''data'', ''uploads'', fileName] in
      case statSync env filePath of
        None \<Rightarrow> Inl (ENOENT filePath)
      | Some fileSize \<Rightarrow>
          (let ext = last (split_dot filePath);
               mimeType = mime_lookup env ext
           in Inr \<lparr>fd_filepath = path_resolve env filePath,
                   fd_originalFilename = fileName,
                   fd_type = mimeType,
                   fd_mimetype = mimeType,
                   fd_ext = ext,
                   fd_size = fileSize\<rparr>))"

text \<open>
  Modelled from the spec: the framework's upload service (section 4.3, "uploads it,
  producing a new asset record"). The call is recorded; when it succeeds the asset
  store gains one record, named as \<open>fileInfo.name\<close> says, and the service returns the
  array holding that record.
\<close>

definition uploadFile :: "env \<Rightarrow> fileData \<Rightarrow> string \<Rightarrow> asset list io" where
  "uploadFile env file name w =
     (let w1 = w\<lparr>upload_calls := upload_calls w @ [(file, name)]\<rparr> in
      if upload_fails env w file name then (Inl UploadError, w1)
      else
        (let a = \<lparr>asset_id = length (assets w),
                  asset_name = name,
                  asset_alternativeText = ''An image uploaded to Strapi called '' @ name,
                  asset_caption = name,
                  asset_mime = fd_mimetype file,
                  asset_extension = fd_ext file,
                  asset_size = fd_size file\<rparr>
         in (Inr [a], w1\<lparr>assets := assets w1 @ [a]\<rparr>)))"

text \<open>
  Modelled from the spec: the asset store's query (section 4.3, "an existing record
  matching the name"): the first record of that name, \<open>None\<close> for \<open>null\<close>.
\<close>

definition findOne_file :: "env \<Rightarrow> string \<Rightarrow> asset option io" where
  "findOne_file env name w =
     (if file_query_fails env w name then (Inl QueryError, w)
      else (Inr (find (\<lambda>a. asset_name a = name) (assets w)), w))"

text \<open>\<open>const [file] = xs\<close>: the first element, \<open>undefined\<close> when there is none.\<close>

definition first_of :: "asset list \<Rightarrow> jsval" where
  "first_of xs = (case xs of [] \<Rightarrow> JUndefined | a # _ \<Rightarrow> JFile a)"

text \<open>
  The body of the loop of lines 109-127 for one \<open>fileName\<close>: \<open>(True, record)\<close> when
  the record goes to \<open>existingFiles\<close>, \<open>(False, record)\<close> when it goes to
  \<open>uploadedFiles\<close>. A \<open>fileName\<close> that is not a string has no \<open>replace\<close> method.
\<close>

fun resolve_file :: "env \<Rightarrow> jsval \<Rightarrow> (bool \<times> jsval) io" where
  "resolve_file env (JStr fileName) w =
     (case findOne_file env (strip_extension fileName) w of
        (Inl e, w1) \<Rightarrow> (Inl e, w1)
      | (Inr (Some fileWhereName), w1) \<Rightarrow> (Inr (True, JFile fileWhereName), w1)
      | (Inr None, w1) \<Rightarrow>
          (case getFileData env fileName of
             Inl e \<Rightarrow> (Inl e, w1)
           | Inr fileData \<Rightarrow>
               (let fileNameNoExtension = hd (split_dot fileName) in
                case uploadFile env fileData fileNameNoExtension w1 of
                  (Inl e, w2) \<Rightarrow> (Inl e, w2)
                | (Inr files, w2) \<Rightarrow> (Inr (False, first_of files), w2))))"
| "resolve_file env v w = (Inl TypeError, w)"

fun checkFiles_loop ::
  "env \<Rightarrow> jsval list \<Rightarrow> jsval list \<Rightarrow> jsval list \<Rightarrow> (jsval list \<times> jsval list) io" where
  "checkFiles_loop env [] existingFiles uploadedFiles w =
     (Inr (existingFiles, uploadedFiles), w)"
| "checkFiles_loop env (fileName # rest) existingFiles uploadedFiles w =
     (case resolve_file env fileName w of
        (Inl e, w1) \<Rightarrow> (Inl e, w1)
      | (Inr (True, file), w1) \<Rightarrow>
          checkFiles_loop env rest (existingFiles @ [file]) uploadedFiles w1
      | (Inr (False, file), w1) \<Rightarrow>
          checkFiles_loop env rest existingFiles (uploadedFiles @ [file]) w1)"

definition checkFileExistsBeforeUpload :: "env \<Rightarrow> jsval \<Rightarrow> jsval io" where
  "checkFileExistsBeforeUpload env files w =
     (case spread files of
        Inl e \<Rightarrow> (Inl e, w)
      | Inr filesCopy \<Rightarrow>
          (case checkFiles_loop env filesCopy [] [] w of
             (Inl e, w1) \<Rightarrow> (Inl e, w1)
           | (Inr (existingFiles, uploadedFiles), w1) \<Rightarrow>
               (let allFiles = existingFiles @ uploadedFiles in
                (Inr (if length allFiles = 1 then hd allFiles else JArr allFiles), w1))))"

section \<open>The block updater (lines 133-161)\<close>

text \<open>
  The body of the loop for one \<open>block\<close>: the value pushed to \<open>updatedBlocks\<close>.
  \<open>{ ...block }\<close> is a new heap object, and the assignment to \<open>blockCopy.file\<close>
  writes to that object.
\<close>

definition update_block :: "env \<Rightarrow> jsval \<Rightarrow> jsval io" where
  "update_block env block w =
     (case get_prop w block ''__component'' of
        Inl e \<Rightarrow> (Inl e, w)
      | Inr component \<Rightarrow>
          if component = JStr ''shared.media'' then
            (case get_prop w block ''file'' of
               Inl e \<Rightarrow> (Inl e, w)
             | Inr file \<Rightarrow>
                 (case checkFileExistsBeforeUpload env (JArr [file]) w of
                    (Inl e, w1) \<Rightarrow> (Inl e, w1)
                  | (Inr uploadedFiles, w1) \<Rightarrow>
                      (case alloc (own_fields w1 block) w1 of
                         (blockCopy, w2) \<Rightarrow>
                           (Inr (JRef blockCopy),
                            set_prop blockCopy ''file'' uploadedFiles w2))))
          else if component = JStr ''shared.slider'' then
            (case get_prop w block ''files'' of
               Inl e \<Rightarrow> (Inl e, w)
             | Inr files \<Rightarrow>
                 (case checkFileExistsBeforeUpload env files w of
                    (Inl e, w1) \<Rightarrow> (Inl e, w1)
                  | (Inr existingAndUploadedFiles, w1) \<Rightarrow>
                      (case alloc (own_fields w1 block) w1 of
                         (blockCopy, w2) \<Rightarrow>
                           (Inr (JRef blockCopy),
                            set_prop blockCopy ''files'' existingAndUploadedFiles w2))))
          else (Inr block, w))"

fun updateBlocks_loop :: "env \<Rightarrow> jsval list \<Rightarrow> jsval list \<Rightarrow> jsval list io" where
  "updateBlocks_loop env [] updatedBlocks w = (Inr updatedBlocks, w)"
| "updateBlocks_loop env (block # rest) updatedBlocks w =
     (case update_block env block w of
        (Inl e, w1) \<Rightarrow> (Inl e, w1)
      | (Inr b, w1) \<Rightarrow> updateBlocks_loop env rest (updatedBlocks @ [b]) w1)"

definition updateBlocks :: "env \<Rightarrow> jsval \<Rightarrow> jsval list io" where
  "updateBlocks env blocks w =
     (case spread blocks of
        Inl e \<Rightarrow> (Inl e, w)
      | Inr bs \<Rightarrow> updateBlocks_loop env bs [] w)"

section \<open>The document importer (lines 92-102 and 163-232)\<close>

text \<open>
  Modelled from the spec: the content store's create-and-publish operation (section
  4.5): a document that is accepted is added to the store, with its status.
\<close>

definition documents_create :: "env \<Rightarrow> string \<Rightarrow> jsval \<Rightarrow> string \<Rightarrow> unit io" where
  "documents_create env model document status w =
     (if create_fails env w model document then (Inl CreateError, w)
      else (Inr (), w\<lparr>documents := documents w @ [(model, document, status)]\<rparr>))"

definition createDocument :: "env \<Rightarrow> string \<Rightarrow> jsval \<Rightarrow> unit io" where
  "createDocument env model document =
     try_catch (documents_create env model document ''published'')
       (\<lambda>error. console_error (ErrorDocument model document error))"

text \<open>An object literal: the spread fields, then the named ones in their order.\<close>

definition object_literal :: "obj \<Rightarrow> (string \<times> jsval) list \<Rightarrow> jsval" where
  "object_literal fs kvs = JObj (fold (\<lambda>(k, v). set_field k v) kvs fs)"

text \<open>The body of the loop of \<open>importArticles\<close> (lines 165-178).\<close>

definition importArticle :: "env \<Rightarrow> jsval \<Rightarrow> unit io" where
  "importArticle env article w =
     (case get_prop w article ''slug'' of
        Inl e \<Rightarrow> (Inl e, w)
      | Inr slug \<Rightarrow>
          (case checkFileExistsBeforeUpload env (JArr [JStr (template env slug @ ''.jpg'')]) w of
             (Inl e, w1) \<Rightarrow> (Inl e, w1)
           | (Inr cover, w1) \<Rightarrow>
               (case get_prop w1 article ''blocks'' of
                  Inl e \<Rightarrow> (Inl e, w1)
                | Inr blocks \<Rightarrow>
                    (case updateBlocks env blocks w1 of
                       (Inl e, w2) \<Rightarrow> (Inl e, w2)
                     | (Inr updatedBlocks, w2) \<Rightarrow>
                         createDocument env ''api::article.article''
                           (object_literal (own_fields w2 article)
                              [(''cover'', cover),
                               (''blocks'', JArr updatedBlocks),
                               (''publishedAt'', JNum (now env)),
                               (''status'', JStr ''published'')]) w2))))"

definition importArticles :: "env \<Rightarrow> seed \<Rightarrow> unit io" where
  "importArticles env sd = for_of (importArticle env) (articles sd)"

definition importGlobal :: "env \<Rightarrow> seed \<Rightarrow> unit io" where
  "importGlobal env sd w =
     (case checkFileExistsBeforeUpload env (JArr [JStr ''favicon.png'']) w of
        (Inl e, w1) \<Rightarrow> (Inl e, w1)
      | (Inr favicon, w1) \<Rightarrow>
          (case checkFileExistsBeforeUpload env (JArr [JStr ''default-image.png'']) w1 of
             (Inl e, w2) \<Rightarrow> (Inl e, w2)
           | (Inr shareImage, w2) \<Rightarrow>
               (case get_prop w2 (global sd) ''defaultSeo'' of
                  Inl e \<Rightarrow> (Inl e, w2)
                | Inr defaultSeo \<Rightarrow>
                    createDocument env ''api::global.global''
                      (object_literal (own_fields w2 (global sd))
                         [(''favicon'', favicon),
                          (''publishedAt'', JNum (now env)),
                          (''defaultSeo'',
                             object_literal (own_fields w2 defaultSeo)
                               [(''shareImage'', shareImage)])]) w2)))"

definition importAbout :: "env \<Rightarrow> seed \<Rightarrow> unit io" where
  "importAbout env sd w =
     (case get_prop w (about sd) ''blocks'' of
        Inl e \<Rightarrow> (Inl e, w)
      | Inr blocks \<Rightarrow>
          (case updateBlocks env blocks w of
             (Inl e, w1) \<Rightarrow> (Inl e, w1)
           | (Inr updatedBlocks, w1) \<Rightarrow>
               createDocument env ''api::about.about''
                 (object_literal (own_fields w1 (about sd))
                    [(''blocks'', JArr updatedBlocks),
                     (''publishedAt'', JNum (now env))]) w1))"

definition importCategories :: "env \<Rightarrow> seed \<Rightarrow> unit io" where
  "importCategories env sd =
     for_of (\<lambda>category. createDocument env ''api::category.category'' category)
       (categories sd)"

text \<open>The body of the loop of \<open>importAuthors\<close> (lines 222-230).\<close>

definition importAuthor :: "env \<Rightarrow> jsval \<Rightarrow> unit io" where
  "importAuthor env author w =
     (case get_prop w author ''avatar'' of
        Inl e \<Rightarrow> (Inl e, w)
      | Inr avatarName \<Rightarrow>
          (case checkFileExistsBeforeUpload env (JArr [avatarName]) w of
             (Inl e, w1) \<Rightarrow> (Inl e, w1)
           | (Inr avatar, w1) \<Rightarrow>
               createDocument env ''api::author.author''
                 (object_literal (own_fields w1 author) [(''avatar'', avatar)]) w1))"

definition importAuthors :: "env \<Rightarrow> seed \<Rightarrow> unit io" where
  "importAuthors env sd = for_of (importAuthor env) (authors sd)"

section \<open>The permission grantor (lines 26-51)\<close>

text \<open>
  Modelled from the spec: the role and permission queries (section 4.2): the public
  role's id, \<open>None\<close> when the query finds no such role, and the creation of one
  permission record.
\<close>

definition findOne_role :: "env \<Rightarrow> nat option io" where
  "findOne_role env w =
     (if role_query_fails env w then (Inl QueryError, w) else (Inr (public_role w), w))"

definition permission_create :: "env \<Rightarrow> string \<Rightarrow> nat \<Rightarrow> unit io" where
  "permission_create env action role w =
     (if permission_create_fails env w action role then (Inl QueryError, w)
      else (Inr (), w\<lparr>permissions := permissions w @ [(action, role)]\<rparr>))"

text \<open>
  The action identifiers of lines 38-49, in the order the two \<open>map\<close>s visit them.
\<close>

definition permission_actions :: "(string \<times> string list) list \<Rightarrow> string list" where
  "permission_actions newPermissions =
     concat (map (\<lambda>(controller, actions).
       map (\<lambda>action. ''api::'' @ controller @ ''.'' @ controller @ ''.'' @ action) actions)
       newPermissions)"

text \<open>
  Every creation is issued before any is awaited, so each one runs whether or not
  another is rejected; \<open>Promise.all\<close> then rejects with a rejection if there is one.
  The creations are run here in the order they are issued, and the first rejection in
  that order is the one kept.
\<close>

fun create_all :: "env \<Rightarrow> string list \<Rightarrow> nat \<Rightarrow> world \<Rightarrow> error option \<times> world" where
  "create_all env [] role w = (None, w)"
| "create_all env (action # rest) role w =
     (case permission_create env action role w of
        (Inl e, w1) \<Rightarrow> (case create_all env rest role w1 of (_, w2) \<Rightarrow> (Some e, w2))
      | (Inr u, w1) \<Rightarrow> create_all env rest role w1)"

text \<open>
  \<open>publicRole.id\<close> is read when the first creation is built: with no public role that
  is a TypeError, thrown before any creation is issued.
\<close>

definition setPublicPermissions :: "env \<Rightarrow> (string \<times> string list) list \<Rightarrow> unit io" where
  "setPublicPermissions env newPermissions w =
     (case findOne_role env w of
        (Inl e, w1) \<Rightarrow> (Inl e, w1)
      | (Inr publicRole, w1) \<Rightarrow>
          (case permission_actions newPermissions of
             [] \<Rightarrow> (Inr (), w1)
           | action # rest \<Rightarrow>
               (case publicRole of
                  None \<Rightarrow> (Inl TypeError, w1)
                | Some role \<Rightarrow>
                    (case create_all env (action # rest) role w1 of
                       (None, w2) \<Rightarrow> (Inr (), w2)
                     | (Some e, w2) \<Rightarrow> (Inl e, w2)))))"

section \<open>The orchestrator (lines 234-265)\<close>

definition importSeedData :: "env \<Rightarrow> seed \<Rightarrow> unit io" where
  "importSeedData env sd =
     await (setPublicPermissions env
              [(''article'', [''find'', ''findOne'']),
               (''category'', [''find'', ''findOne'']),
               (''author'', [''find'', ''findOne'']),
               (''global'', [''find'', ''findOne'']),
               (''about'', [''find'', ''findOne''])]) (\<lambda>_.
     await (importCategories env sd) (\<lambda>_.
     await (importAuthors env sd) (\<lambda>_.
     await (importArticles env sd) (\<lambda>_.
     await (importGlobal env sd) (\<lambda>_.
     importAbout env sd)))))"

text \<open>The exported entry point, \<open>module.exports\<close>.\<close>

definition module_exports :: "env \<Rightarrow> seed \<Rightarrow> unit io" where
  "module_exports env sd =
     await (isFirstRun env) (\<lambda>shouldImportSeedData.
       if shouldImportSeedData then
         try_catch
           (await (console_log ''Setting up the template...'') (\<lambda>_.
            await (importSeedData env sd) (\<lambda>_.
            console_log ''Ready to go'')))
           (\<lambda>error.
            await (console_log ''Could not import seed data'') (\<lambda>_.
            console_error (ErrorValue error)))
       else return ())"


section \<open>Resolution in input order\<close>

text \<open>
  The resolver as section 4.3 of the specification words it, name by name in input
  order ("for each, queries the asset store for an existing record ...; if found,
  reuses it; otherwise ... uploads it"): the record each name resolves to, marked
  \<open>True\<close> when it was found and \<open>False\<close> when it was uploaded. The source's loop,
  which keeps two lists, is compared with this definition.
\<close>

fun resolve_each :: "env \<Rightarrow> jsval list \<Rightarrow> (bool \<times> jsval) list io" where
  "resolve_each env [] w = (Inr [], w)"
| "resolve_each env (v # vs) w =
     (case resolve_file env v w of
        (Inl e, w1) \<Rightarrow> (Inl e, w1)
      | (Inr x, w1) \<Rightarrow>
          (case resolve_each env vs w1 of
             (Inl e, w2) \<Rightarrow> (Inl e, w2)
           | (Inr xs, w2) \<Rightarrow> (Inr (x # xs), w2)))"

section \<open>Resolved values\<close>

text \<open>
  What a file reference is after resolution: an asset record, and for a list of
  references an asset record or a sequence of asset records, never a filename string.
\<close>

definition is_record :: "jsval \<Rightarrow> bool" where
  "is_record v = (case v of JFile r \<Rightarrow> True | _ \<Rightarrow> False)"

definition only_records :: "jsval \<Rightarrow> bool" where
  "only_records v =
     (case v of JFile r \<Rightarrow> True | JArr vs \<Rightarrow> list_all is_record vs | _ \<Rightarrow> False)"

text \<open>The fields of an object other than the field \<open>k\<close>, in their order.\<close>

definition without_field :: "string \<Rightarrow> obj \<Rightarrow> obj" where
  "without_field k fs = filter (\<lambda>kv. fst kv \<noteq> k) fs"

text \<open>
  \<open>v\<close> is a heap object allocated between the states \<open>w\<close> and \<open>w'\<close> that has the
  fields of \<open>block\<close>, as they were in \<open>w\<close>, except possibly for the field \<open>k\<close>.
\<close>

definition shallow_copy :: "world \<Rightarrow> world \<Rightarrow> jsval \<Rightarrow> string \<Rightarrow> jsval \<Rightarrow> bool" where
  "shallow_copy w w' block k v =
     (case v of
        JRef a \<Rightarrow>
          length (heap w) \<le> a \<and> a < length (heap w') \<and>
          without_field k (heap w' ! a) = without_field k (own_fields w block)
      | _ \<Rightarrow> False)"

text \<open>
  What the block updater pushes for \<open>block\<close>: a shallow copy of a media or slider
  block, the block itself otherwise. (A block that cannot be read in \<open>w\<close> is not an
  input the updater gets past.)
\<close>

definition updated_as :: "world \<Rightarrow> world \<Rightarrow> jsval \<Rightarrow> jsval \<Rightarrow> bool" where
  "updated_as w w' block v =
     (case get_prop w block ''__component'' of
        Inl e \<Rightarrow> True
      | Inr t \<Rightarrow>
          if t = JStr ''shared.media'' then shallow_copy w w' block ''file'' v
          else if t = JStr ''shared.slider'' then shallow_copy w w' block ''files'' v
          else v = block)"

text \<open>
  A block whose tag can be read and whose file references, if it is a media or slider
  block, are resolved.
\<close>

definition resolved_block :: "world \<Rightarrow> jsval \<Rightarrow> bool" where
  "resolved_block w v =
     (case get_prop w v ''__component'' of
        Inl e \<Rightarrow> False
      | Inr t \<Rightarrow>
          (if t = JStr ''shared.media'' then
             (case get_prop w v ''file'' of Inl e \<Rightarrow> False | Inr x \<Rightarrow> is_record x)
           else if t = JStr ''shared.slider'' then
             (case get_prop w v ''files'' of Inl e \<Rightarrow> False | Inr x \<Rightarrow> only_records x)
           else True))"

text \<open>
  The outcome \<open>y\<close> of resolving \<open>fileName\<close> against an asset store: a record of
  the store, marked as found and then named by the lookup key of the file name, or
  marked as uploaded and then named as the upload of that file is.
\<close>

definition resolved_as :: "asset list \<Rightarrow> jsval \<Rightarrow> bool \<times> jsval \<Rightarrow> bool" where
  "resolved_as store fileName y =
     (case (fileName, snd y) of
        (JStr f, JFile r) \<Rightarrow>
          r \<in> set store \<and>
          asset_name r = (if fst y then strip_extension f else hd (split_dot f))
      | _ \<Rightarrow> False)"

text \<open>
  What the resolver returns for the outcomes \<open>ys\<close>, listed in input order (lines
  128-130): the found records, then the uploaded ones, a lone record unwrapped.
\<close>

definition arranged :: "(bool \<times> jsval) list \<Rightarrow> jsval" where
  "arranged ys =
     (let allFiles = map snd (filter fst ys) @ map snd (filter (\<lambda>y. \<not> fst y) ys)
      in if length allFiles = 1 then hd allFiles else JArr allFiles)"

text \<open>
  \<open>x\<close> is a resolution of the file names \<open>files\<close> against an asset store: every
  name has its outcome, and \<open>x\<close> is what the resolver returns for them.
\<close>

definition files_resolved :: "asset list \<Rightarrow> jsval \<Rightarrow> jsval \<Rightarrow> bool" where
  "files_resolved store files x =
     (\<exists>names ys. spread files = Inr names \<and> length ys = length names \<and>
        (\<forall>j<length names. resolved_as store (names ! j) (ys ! j)) \<and>
        x = arranged ys)"

text \<open>
  The value \<open>v\<close>, read in the state \<open>w'\<close>, is \<open>block\<close>, read in the state \<open>w\<close>,
  with its file references resolved: for a media block \<open>v\<close> is a media block whose
  \<open>file\<close> is a resolution of the one name \<open>block.file\<close>, for a slider \<open>v\<close> is a
  slider whose \<open>files\<close> is a resolution of the names \<open>block.files\<close>.
\<close>

definition resolved_from :: "world \<Rightarrow> world \<Rightarrow> jsval \<Rightarrow> jsval \<Rightarrow> bool" where
  "resolved_from w w' block v =
     (case get_prop w block ''__component'' of
        Inl e \<Rightarrow> True
      | Inr t \<Rightarrow>
          if t = JStr ''shared.media'' then
            (\<exists>name x. get_prop w block ''file'' = Inr name \<and>
               get_prop w' v ''__component'' = Inr t \<and>
               get_prop w' v ''file'' = Inr x \<and>
               files_resolved (assets w') (JArr [name]) x)
          else if t = JStr ''shared.slider'' then
            (\<exists>names x. get_prop w block ''files'' = Inr names \<and>
               get_prop w' v ''__component'' = Inr t \<and>
               get_prop w' v ''files'' = Inr x \<and>
               files_resolved (assets w') names x)
          else True)"




section \<open>A concrete setting\<close>

text \<open>
  An environment in which no call fails and every file is on disk, and a fresh backend
  that has the public role.
\<close>

definition quiet :: env where
  "quiet =
     \<lparr>store_get_fails = (\<lambda>w. False),
      store_set_fails = (\<lambda>w. False),
      role_query_fails = (\<lambda>w. False),
      permission_create_fails = (\<lambda>w action role. False),
      file_query_fails = (\<lambda>w name. False),
      upload_fails = (\<lambda>w file name. False),
      create_fails = (\<lambda>w model document. False),
      statSync = (\<lambda>p. Some 1),
      path_join = (\<lambda>ps. concat (map (\<lambda>p. CHR ''/'' # p) ps)),
      path_resolve = (\<lambda>p. p),
      mime_lookup = (\<lambda>ext. if ext = ''jpg'' then Some ''image/jpeg'' else None),
      now = 0,
      toString = (\<lambda>v. ''[object Object]'')\<rparr>"

definition fresh :: world where
  "fresh =
     \<lparr>initHasRun = None,
      public_role = Some 1,
      permissions = [],
      assets = [],
      upload_calls = [],
      documents = [],
      console = [],
      heap = []\<rparr>"

text \<open>
  Seed data: one category, one author, one article with a media block, a quote and a
  slider (the heap objects at addresses 0, 1 and 2), the global settings and the about
  page.
\<close>

definition demo :: seed where
  "demo =
     \<lparr>categories = [JObj [(''name'', JStr ''news'')]],
      authors = [JObj [(''name'', JStr ''Ann''), (''avatar'', JStr ''ann.jpg'')]],
      articles =
        [JObj [(''slug'', JStr ''first''), (''blocks'', JArr [JRef 0, JRef 1, JRef 2])]],
      global =
        JObj [(''siteName'', JStr ''Blog''),
              (''defaultSeo'', JObj [(''metaTitle'', JStr ''Blog'')])],
      about = JObj [(''title'', JStr ''About''), (''blocks'', JArr [JRef 1])]\<rparr>"

definition demo_blocks :: "obj list" where
  "demo_blocks =
     [[(''__component'', JStr ''shared.media''), (''file'', JStr ''coffee-art.jpg'')],
      [(''__component'', JStr ''shared.quote''), (''body'', JStr ''so it goes'')],
      [(''__component'', JStr ''shared.slider''),
       (''files'', JArr [JStr ''coffee-art.jpg'', JStr ''beans.jpg''])]]"

text \<open>An asset store that already holds one image, and the record a first upload of
  \<open>beans.jpg\<close> adds to it.\<close>

definition coffee :: asset where
  "coffee =
     \<lparr>asset_id = 7,
      asset_name = ''coffee-art'',
      asset_alternativeText = ''An image uploaded to Strapi called coffee-art'',
      asset_caption = ''coffee-art'',
      asset_mime = Some ''image/jpeg'',
      asset_extension = ''jpg'',
      asset_size = 1\<rparr>"

definition beans :: asset where
  "beans =
     \<lparr>asset_id = 1,
      asset_name = ''beans'',
      asset_alternativeText = ''An image uploaded to Strapi called beans'',
      asset_caption = ''beans'',
      asset_mime = Some ''image/jpeg'',
      asset_extension = ''jpg'',
      asset_size = 1\<rparr>"

definition beans_data :: fileData where
  "beans_data =
     \<lparr>fd_filepath = ''/data/uploads/beans.jpg'',
      fd_originalFilename = ''beans.jpg'',
      fd_type = Some ''image/jpeg'',
      fd_mimetype = Some ''image/jpeg'',
      fd_ext = ''jpg'',
      fd_size = 1\<rparr>"

definition stocked :: world where
  "stocked = fresh\<lparr>assets := [coffee]\<rparr>"

text \<open>The record that the first upload of \<open>photo.small.jpg\<close> adds to an empty store.\<close>

definition photo :: asset where
  "photo =
     \<lparr>asset_id = 0,
      asset_name = ''photo'',
      asset_alternativeText = ''An image uploaded to Strapi called photo'',
      asset_caption = ''photo'',
      asset_mime = Some ''image/jpeg'',
      asset_extension = ''jpg'',
      asset_size = 1\<rparr>"

text \<open>Two file names with a line feed after their first dot: \<open>a.b\<close>, LF, \<open>c\<close> and
  \<open>a.x\<close>, LF, \<open>y\<close>.\<close>

definition two_lines :: string where
  "two_lines = [CHR ''a'', CHR ''.'', CHR ''b'', CHR 0x0A, CHR ''c'']"

definition two_lines' :: string where
  "two_lines' = [CHR ''a'', CHR ''.'', CHR ''x'', CHR 0x0A, CHR ''y'']"

text \<open>
  The stocked backend with the three demo blocks on the heap, and the same backend
  after the block updater has run over them: \<open>beans.jpg\<close> is uploaded, and the
  copies of the media block and of the slider are the heap objects 3 and 4.
\<close>

definition library :: world where
  "library = stocked\<lparr>heap := demo_blocks\<rparr>"

definition library_updated :: world where
  "library_updated =
     library
       \<lparr>assets := [coffee, beans],
        upload_calls := [(beans_data, ''beans'')],
        heap := demo_blocks @
          [[(''__component'', JStr ''shared.media''), (''file'', JFile coffee)],
           [(''__component'', JStr ''shared.slider''),
            (''files'', JArr [JFile coffee, JFile beans])]]\<rparr>"



text \<open>
  An environment whose configuration store cannot be read, and a backend that has no
  public role.
\<close>

definition offline :: env where
  "offline = quiet\<lparr>store_get_fails := (\<lambda>w. True)\<rparr>"

definition roleless :: world where
  "roleless = fresh\<lparr>public_role := None\<rparr>"

section \<open>Properties\<close>

lemma split_dot_not_Nil: "split_dot s \<noteq> []"
  by (induction s) (auto split: list.splits)

subsection \<open>File names\<close>

lemma hd_split_dot: "hd (split_dot s) = takeWhile (\<lambda>c. c \<noteq> CHR ''.'') s"
  by (induction s) (auto split: list.splits simp: split_dot_not_Nil)

lemma strip_extension_plain:
  "\<not> list_ex is_line_terminator s \<Longrightarrow> strip_extension s = takeWhile (\<lambda>c. c \<noteq> CHR ''.'') s"
  by (induction s) auto

subsection \<open>The flag is written by the guard only\<close>

lemma flag_resolve_file: "resolve_file env v w = (r, w') \<Longrightarrow> initHasRun w' = initHasRun w"
  by (cases v)
     (auto simp: findOne_file_def uploadFile_def Let_def
           split: prod.splits sum.splits option.splits if_splits)

lemma flag_checkFiles_loop:
  "checkFiles_loop env vs ex up w = (r, w') \<Longrightarrow> initHasRun w' = initHasRun w"
proof (induction vs arbitrary: ex up w)
  case Nil
  then show ?case by simp
next
  case (Cons v vs)
  obtain r1 w1 where step: "resolve_file env v w = (r1, w1)"
    by (cases "resolve_file env v w")
  have "initHasRun w1 = initHasRun w"
    using flag_resolve_file [OF step] .
  then show ?case
    using step Cons by (auto split: sum.splits prod.splits bool.splits)
qed

lemma flag_checkFileExistsBeforeUpload:
  "checkFileExistsBeforeUpload env files w = (r, w') \<Longrightarrow> initHasRun w' = initHasRun w"
  by (auto simp: checkFileExistsBeforeUpload_def Let_def
           split: prod.splits sum.splits dest: flag_checkFiles_loop)

lemma flag_update_block: "update_block env b w = (r, w') \<Longrightarrow> initHasRun w' = initHasRun w"
  unfolding update_block_def alloc_def set_prop_def
  by (auto split: sum.splits prod.splits if_splits dest: flag_checkFileExistsBeforeUpload)

lemma flag_updateBlocks_loop:
  "updateBlocks_loop env bs acc w = (r, w') \<Longrightarrow> initHasRun w' = initHasRun w"
proof (induction bs arbitrary: acc w)
  case Nil
  then show ?case by simp
next
  case (Cons b bs)
  obtain r1 w1 where step: "update_block env b w = (r1, w1)"
    by (cases "update_block env b w")
  have "initHasRun w1 = initHasRun w"
    using flag_update_block [OF step] .
  then show ?case
    using step Cons by (auto split: sum.splits)
qed

lemma flag_updateBlocks: "updateBlocks env blocks w = (r, w') \<Longrightarrow> initHasRun w' = initHasRun w"
  by (auto simp: updateBlocks_def split: sum.splits dest: flag_updateBlocks_loop)

lemma flag_createDocument:
  "createDocument env model document w = (r, w') \<Longrightarrow> initHasRun w' = initHasRun w"
  by (auto simp: createDocument_def try_catch_def documents_create_def console_error_def
           split: if_splits)

lemma flag_for_of:
  assumes run: "for_of body xs w = (r, w')"
    and body: "\<And>x w r w'. body x w = (r, w') \<Longrightarrow> initHasRun w' = initHasRun w"
  shows "initHasRun w' = initHasRun w"
  using run
proof (induction xs arbitrary: w)
  case Nil
  then show ?case by simp
next
  case (Cons x xs)
  obtain r1 w1 where step: "body x w = (r1, w1)"
    by (cases "body x w")
  have "initHasRun w1 = initHasRun w"
    using body [OF step] .
  then show ?case
    using step Cons by (auto split: sum.splits)
qed

lemma flag_importArticle:
  "importArticle env article w = (r, w') \<Longrightarrow> initHasRun w' = initHasRun w"
  unfolding importArticle_def
  by (auto split: sum.splits prod.splits
           dest!: flag_checkFileExistsBeforeUpload flag_updateBlocks flag_createDocument)

lemma flag_importAuthor:
  "importAuthor env author w = (r, w') \<Longrightarrow> initHasRun w' = initHasRun w"
  unfolding importAuthor_def
  by (auto split: sum.splits prod.splits
           dest!: flag_checkFileExistsBeforeUpload flag_createDocument)

lemma flag_importGlobal:
  "importGlobal env sd w = (r, w') \<Longrightarrow> initHasRun w' = initHasRun w"
  unfolding importGlobal_def
  by (auto split: sum.splits prod.splits
           dest!: flag_checkFileExistsBeforeUpload flag_createDocument)

lemma flag_importAbout:
  "importAbout env sd w = (r, w') \<Longrightarrow> initHasRun w' = initHasRun w"
  unfolding importAbout_def
  by (auto split: sum.splits prod.splits dest!: flag_updateBlocks flag_createDocument)

lemma flag_create_all:
  "create_all env acts role w = (r, w') \<Longrightarrow> initHasRun w' = initHasRun w"
proof (induction acts arbitrary: w r)
  case Nil
  then show ?case by simp
next
  case (Cons a acts)
  then show ?case
    by (fastforce simp: permission_create_def split: if_splits prod.splits)
qed

lemma flag_setPublicPermissions:
  "setPublicPermissions env ps w = (r, w') \<Longrightarrow> initHasRun w' = initHasRun w"
  unfolding setPublicPermissions_def findOne_role_def
  by (auto simp del: create_all.simps
           split: if_splits list.splits option.splits prod.splits dest!: flag_create_all)

lemma flag_await:
  assumes "await m f w = (r, w')"
    and "\<And>w r w'. m w = (r, w') \<Longrightarrow> initHasRun w' = initHasRun w"
    and "\<And>x w r w'. f x w = (r, w') \<Longrightarrow> initHasRun w' = initHasRun w"
  shows "initHasRun w' = initHasRun w"
proof (cases "m w")
  case (Pair r1 w1)
  then have "initHasRun w1 = initHasRun w"
    by (rule assms(2))
  with Pair assms(1,3) show ?thesis
    by (cases r1) (auto simp: await_def)
qed

lemma flag_importSeedData:
  "importSeedData env sd w = (r, w') \<Longrightarrow> initHasRun w' = initHasRun w"
  unfolding importSeedData_def importCategories_def importAuthors_def importArticles_def
  by (erule flag_await flag_setPublicPermissions flag_for_of flag_createDocument
            flag_importAuthor flag_importArticle flag_importGlobal flag_importAbout)+

lemma isFirstRun_result:
  "\<not> store_get_fails env w \<Longrightarrow> \<not> store_set_fails env w \<Longrightarrow>
   isFirstRun env w =
     (Inr (\<not> truthy (case initHasRun w of None \<Rightarrow> JNull | Some v \<Rightarrow> v)),
      w\<lparr>initHasRun := Some (JBool True)\<rparr>)"
  by (simp add: isFirstRun_def await_def return_def pluginStore_get_def pluginStore_set_def)

lemma flag_module_exports:
  assumes "\<not> store_get_fails env w" "\<not> store_set_fails env w"
    and "module_exports env sd w = (r, w1)"
  shows "initHasRun w1 = Some (JBool True)"
proof -
  let ?w0 = "w\<lparr>initHasRun := Some (JBool True)\<rparr>"
  have seed: "\<And>u r' w'. importSeedData env sd u = (r', w') \<Longrightarrow> initHasRun w' = initHasRun u"
    by (rule flag_importSeedData)
  show ?thesis
    using assms(3) isFirstRun_result [OF assms(1,2)]
    by (auto simp: module_exports_def await_def return_def try_catch_def console_log_def
                   console_error_def
             split: if_splits sum.splits prod.splits dest!: seed)
qed

subsection \<open>The run-once guard\<close>

text \<open>
  C1. Take an invocation of the entry point in which the guard runs (the store answers
  the read and the write), and any later invocation, in a state whose flag is the one
  the first invocation left, in which the store answers again. On the first invocation,
  with the flag unset or false, \<open>isFirstRun\<close> returns true and sets the flag to true. On
  the later one \<open>isFirstRun\<close> returns false and the entry point returns without any
  effect: the seed import is skipped.
\<close>

theorem isFirstRun_once:
  assumes "\<not> store_get_fails env w" and "\<not> store_set_fails env w"
    and "module_exports env sd w = (r, w1)"
    and "initHasRun w2 = initHasRun w1"
    and "\<not> store_get_fails env' w2" and "\<not> store_set_fails env' w2"
  shows "(initHasRun w = None \<or> initHasRun w = Some (JBool False) \<longrightarrow>
            isFirstRun env w = (Inr True, w\<lparr>initHasRun := Some (JBool True)\<rparr>)) \<and>
         isFirstRun env' w2 = (Inr False, w2) \<and>
         module_exports env' sd' w2 = (Inr (), w2)"
proof -
  have flag: "initHasRun w2 = Some (JBool True)"
    using flag_module_exports [OF assms(1,2,3)] assms(4) by simp
  have later: "isFirstRun env' w2 = (Inr False, w2)"
    using isFirstRun_result [OF assms(5,6)] flag by simp
  have skip: "module_exports env' sd' w2 = (Inr (), w2)"
    using later by (simp add: module_exports_def await_def return_def)
  have first: "initHasRun w = None \<or> initHasRun w = Some (JBool False) \<longrightarrow>
      isFirstRun env w = (Inr True, w\<lparr>initHasRun := Some (JBool True)\<rparr>)"
    using isFirstRun_result [OF assms(1,2)] by auto
  from first later skip show ?thesis by simp
qed

theorem isFirstRun_once_witness:
  "isFirstRun quiet fresh = (Inr True, fresh\<lparr>initHasRun := Some (JBool True)\<rparr>) \<and>
   isFirstRun quiet (snd (module_exports quiet demo fresh)) =
     (Inr False, snd (module_exports quiet demo fresh)) \<and>
   module_exports quiet demo (snd (module_exports quiet demo fresh)) =
     (Inr (), snd (module_exports quiet demo fresh))"
  using isFirstRun_once [of quiet fresh demo "fst (module_exports quiet demo fresh)"
      "snd (module_exports quiet demo fresh)" "snd (module_exports quiet demo fresh)"
      quiet demo]
  by (simp add: quiet_def fresh_def)

subsection \<open>The file resolver\<close>

lemma find_append_Some: "find P xs = Some r \<Longrightarrow> find P (xs @ ys) = Some r"
  by (induction xs) (auto split: if_splits)

lemma find_append_None: "find P xs = None \<Longrightarrow> find P (xs @ ys) = find P ys"
  by (induction xs) (auto split: if_splits)

lemma resolve_file_keeps:
  assumes "find (\<lambda>a. asset_name a = strip_extension f) (assets w) = Some r"
    and "resolve_file env v w = (res, w')"
  shows "(\<exists>new. upload_calls w' = upload_calls w @ new \<and>
                (\<forall>c\<in>set new. fd_originalFilename (fst c) \<noteq> f)) \<and>
         find (\<lambda>a. asset_name a = strip_extension f) (assets w') = Some r \<and>
         (v = JStr f \<longrightarrow> (\<forall>x. res = Inr x \<longrightarrow> x = (True, JFile r)))"
proof (cases v)
  case (JStr g)
  show ?thesis
    using assms unfolding JStr
    by (auto simp: findOne_file_def uploadFile_def getFileData_def Let_def find_append_Some
             split: if_splits option.splits sum.splits)
qed (use assms in auto)

lemma checkFiles_loop_keeps:
  assumes "find (\<lambda>a. asset_name a = strip_extension f) (assets w) = Some r"
    and "checkFiles_loop env vs ex up w = (res, w')"
  shows "(\<exists>new. upload_calls w' = upload_calls w @ new \<and>
                (\<forall>c\<in>set new. fd_originalFilename (fst c) \<noteq> f)) \<and>
         (\<forall>ex' up'. res = Inr (ex', up') \<longrightarrow> JFile r \<in> set ex \<or> JStr f \<in> set vs \<longrightarrow>
            JFile r \<in> set ex')"
  using assms
proof (induction vs arbitrary: ex up w)
  case Nil
  then show ?case by auto
next
  case (Cons v vs)
  obtain r1 w1 where step: "resolve_file env v w = (r1, w1)"
    by (cases "resolve_file env v w")
  note keep = resolve_file_keeps [OF Cons.prems(1) step]
  from keep obtain new1 where new1: "upload_calls w1 = upload_calls w @ new1"
    "\<forall>c\<in>set new1. fd_originalFilename (fst c) \<noteq> f"
    by blast
  from keep have found: "find (\<lambda>a. asset_name a = strip_extension f) (assets w1) = Some r"
    by blast
  show ?case
  proof (cases r1)
    case (Inl e)
    with Cons.prems(2) step new1 show ?thesis by auto
  next
    case (Inr x)
    obtain b item where x: "x = (b, item)" by (cases x)
    let ?ex = "if b then ex @ [item] else ex"
    let ?up = "if b then up else up @ [item]"
    have rest: "checkFiles_loop env vs ?ex ?up w1 = (res, w')"
      using Cons.prems(2) step Inr x by (cases b) auto
    note ih = Cons.IH [OF found rest]
    from ih obtain new2 where new2: "upload_calls w' = upload_calls w1 @ new2"
      "\<forall>c\<in>set new2. fd_originalFilename (fst c) \<noteq> f"
      by blast
    have calls: "\<exists>new. upload_calls w' = upload_calls w @ new \<and>
        (\<forall>c\<in>set new. fd_originalFilename (fst c) \<noteq> f)"
      using new1 new2 by (intro exI [of _ "new1 @ new2"]) auto
    have same: "v = JStr f \<Longrightarrow> b \<and> item = JFile r"
      using keep Inr x by auto
    have reuse: "\<forall>ex' up'. res = Inr (ex', up') \<longrightarrow>
        JFile r \<in> set ex \<or> JStr f \<in> set (v # vs) \<longrightarrow> JFile r \<in> set ex'"
      using ih same by auto
    from calls reuse show ?thesis by blast
  qed
qed

text \<open>
  C2. When the stripped name of an input filename already matches a record of the asset
  store, the resolver makes no call to the upload service for that filename, whatever
  becomes of the other names, and a call that returns hands back the record the store
  already held (alone, or as a member of the returned sequence).
\<close>

theorem existing_file_reused:
  assumes "spread files = Inr names" and "JStr f \<in> set names"
    and "find (\<lambda>a. asset_name a = strip_extension f) (assets w) = Some r"
    and "checkFileExistsBeforeUpload env files w = (res, w')"
  shows "(\<exists>new. upload_calls w' = upload_calls w @ new \<and>
                (\<forall>c\<in>set new. fd_originalFilename (fst c) \<noteq> f)) \<and>
         (\<forall>v. res = Inr v \<longrightarrow> v = JFile r \<or> (\<exists>vs. v = JArr vs \<and> JFile r \<in> set vs))"
proof -
  obtain r1 w1 where loop: "checkFiles_loop env names [] [] w = (r1, w1)"
    by (cases "checkFiles_loop env names [] [] w")
  note keep = checkFiles_loop_keeps [OF assms(3) loop]
  have w1: "w1 = w'"
    using assms(1,4) loop
    by (auto simp: checkFileExistsBeforeUpload_def Let_def split: sum.splits prod.splits)
  have result: "res = Inr v \<Longrightarrow> v = JFile r \<or> (\<exists>vs. v = JArr vs \<and> JFile r \<in> set vs)" for v
  proof -
    assume v: "res = Inr v"
    then obtain ex up where r1: "r1 = Inr (ex, up)"
      and v_eq: "v = (if length (ex @ up) = 1 then hd (ex @ up) else JArr (ex @ up))"
      using assms(1,4) loop
      by (auto simp: checkFileExistsBeforeUpload_def Let_def split: sum.splits prod.splits)
    have mem: "JFile r \<in> set ex"
      using keep r1 assms(2) by blast
    show ?thesis
    proof (cases "length (ex @ up) = 1")
      case True
      then have "ex @ up = [JFile r]"
        using mem by (cases ex; cases up) auto
      with v_eq show ?thesis by simp
    next
      case False
      with v_eq mem show ?thesis by auto
    qed
  qed
  from keep w1 result show ?thesis by blast
qed

lemmas run_simps =
  checkFileExistsBeforeUpload_def findOne_file_def uploadFile_def getFileData_def
  first_of_def Let_def quiet_def fresh_def stocked_def coffee_def beans_def beans_data_def
  is_line_terminator_def

lemma stocked_run:
  "checkFileExistsBeforeUpload quiet (JArr [JStr ''beans.jpg'', JStr ''coffee-art.jpg'']) stocked =
     (Inr (JArr [JFile coffee, JFile beans]),
      stocked\<lparr>assets := [coffee, beans], upload_calls := [(beans_data, ''beans'')]\<rparr>)"
  by (simp add: run_simps)

theorem existing_file_reused_witness:
  "upload_calls (snd (checkFileExistsBeforeUpload quiet
      (JArr [JStr ''beans.jpg'', JStr ''coffee-art.jpg'']) stocked)) =
     upload_calls stocked @ [(beans_data, ''beans'')] \<and>
   fd_originalFilename beans_data \<noteq> ''coffee-art.jpg'' \<and>
   fst (checkFileExistsBeforeUpload quiet
      (JArr [JStr ''beans.jpg'', JStr ''coffee-art.jpg'']) stocked) =
     Inr (JArr [JFile coffee, JFile beans])"
  using existing_file_reused [of "JArr [JStr ''beans.jpg'', JStr ''coffee-art.jpg'']"
      "[JStr ''beans.jpg'', JStr ''coffee-art.jpg'']" "''coffee-art.jpg''" stocked coffee quiet
      "Inr (JArr [JFile coffee, JFile beans])"
      "stocked\<lparr>assets := [coffee, beans], upload_calls := [(beans_data, ''beans'')]\<rparr>"]
    stocked_run
  by (simp add: stocked_def fresh_def beans_data_def)

lemma checkFiles_loop_resolve_each:
  "checkFiles_loop env vs ex up w =
     (case resolve_each env vs w of
        (Inl e, w') \<Rightarrow> (Inl e, w')
      | (Inr xs, w') \<Rightarrow>
          (Inr (ex @ map snd (filter fst xs), up @ map snd (filter (\<lambda>x. \<not> fst x) xs)), w'))"
proof (induction vs arbitrary: ex up w)
  case Nil
  show ?case by simp
next
  case (Cons v vs)
  show ?case
  proof (cases "resolve_file env v w")
    case (Pair r1 w1)
    show ?thesis
    proof (cases r1)
      case (Inl e)
      with Pair show ?thesis by simp
    next
      case (Inr x)
      obtain b item where x: "x = (b, item)" by (cases x)
      show ?thesis
        using Pair Inr x Cons.IH
        by (cases b) (auto split: prod.splits sum.splits)
    qed
  qed
qed

lemma resolve_each_length:
  "resolve_each env vs w = (Inr xs, w') \<Longrightarrow> length xs = length vs"
  by (induction vs arbitrary: w xs) (auto split: prod.splits sum.splits)

lemma partition_in_order:
  "(\<forall>i j. i < j \<and> j < length xs \<longrightarrow> fst (xs ! i) \<or> \<not> fst (xs ! j)) \<Longrightarrow>
   filter fst xs @ filter (\<lambda>x. \<not> fst x) xs = xs"
proof (induction xs)
  case Nil
  show ?case by simp
next
  case (Cons x xs)
  have tail: "\<forall>i j. i < j \<and> j < length xs \<longrightarrow> fst (xs ! i) \<or> \<not> fst (xs ! j)"
  proof (intro allI impI)
    fix i j assume "i < j \<and> j < length xs"
    then have "Suc i < Suc j \<and> Suc j < length (x # xs)" by simp
    with Cons.prems have "fst ((x # xs) ! Suc i) \<or> \<not> fst ((x # xs) ! Suc j)" by blast
    then show "fst (xs ! i) \<or> \<not> fst (xs ! j)" by simp
  qed
  note ih = Cons.IH [OF tail]
  show ?case
  proof (cases "fst x")
    case True
    with ih show ?thesis by simp
  next
    case False
    have "\<not> fst y" if "y \<in> set xs" for y
    proof -
      from that obtain j where j: "j < length xs" "xs ! j = y"
        by (auto simp: in_set_conv_nth)
      then have "0 < Suc j \<and> Suc j < length (x # xs)" by simp
      with Cons.prems have "fst ((x # xs) ! 0) \<or> \<not> fst ((x # xs) ! Suc j)" by blast
      with False j show ?thesis by simp
    qed
    then have "filter fst xs = []" "filter (\<lambda>x. \<not> fst x) xs = xs"
      by (auto simp: filter_empty_conv filter_id_conv)
    with False show ?thesis by simp
  qed
qed

text \<open>
  C5, as amended. For two or more filenames the resolver returns the records found in
  the asset store first and the newly uploaded ones after them, each group in input
  order (\<open>resolve_each\<close> is the resolution name by name in input order). When no
  uploaded file precedes a found one in the input, that is the input order itself, even
  with both groups non-empty.
\<close>

theorem existing_first_then_uploaded:
  assumes "spread files = Inr names" and "2 \<le> length names"
    and "checkFileExistsBeforeUpload env files w = (Inr v, w')"
  shows "\<exists>xs. resolve_each env names w = (Inr xs, w') \<and> length xs = length names \<and>
           v = JArr (map snd (filter fst xs) @ map snd (filter (\<lambda>x. \<not> fst x) xs)) \<and>
           ((\<forall>i j. i < j \<and> j < length xs \<longrightarrow> fst (xs ! i) \<or> \<not> fst (xs ! j)) \<longrightarrow>
              v = JArr (map snd xs))"
proof -
  obtain r1 w1 where each: "resolve_each env names w = (r1, w1)"
    by (cases "resolve_each env names w")
  have loop: "checkFiles_loop env names [] [] w =
      (case r1 of Inl e \<Rightarrow> (Inl e, w1)
       | Inr xs \<Rightarrow> (Inr (map snd (filter fst xs), map snd (filter (\<lambda>x. \<not> fst x) xs)), w1))"
    using checkFiles_loop_resolve_each [of env names "[]" "[]" w] each
    by (cases r1) simp_all
  from assms(1,3) loop obtain xs where xs: "r1 = Inr xs" and w1: "w1 = w'"
    by (cases r1) (auto simp: checkFileExistsBeforeUpload_def Let_def)
  have len: "length xs = length names"
    using resolve_each_length each xs by blast
  have both: "length (map snd (filter fst xs) @ map snd (filter (\<lambda>x. \<not> fst x) xs)) = length xs"
    using sum_length_filter_compl [of fst xs] by simp
  have v: "v = JArr (map snd (filter fst xs) @ map snd (filter (\<lambda>x. \<not> fst x) xs))"
    using assms(1,2,3) loop xs len both
    by (simp add: checkFileExistsBeforeUpload_def Let_def del: length_append map_append)
  have ordered: "v = JArr (map snd xs)"
    if "\<forall>i j. i < j \<and> j < length xs \<longrightarrow> fst (xs ! i) \<or> \<not> fst (xs ! j)"
  proof -
    have "map snd (filter fst xs @ filter (\<lambda>x. \<not> fst x) xs) = map snd xs"
      using partition_in_order [OF that] by simp
    with v show ?thesis by simp
  qed
  from each xs w1 len v ordered show ?thesis by blast
qed

lemma stocked_each:
  "resolve_each quiet [JStr ''coffee-art.jpg'', JStr ''beans.jpg''] stocked =
     (Inr [(True, JFile coffee), (False, JFile beans)],
      stocked\<lparr>assets := [coffee, beans], upload_calls := [(beans_data, ''beans'')]\<rparr>)"
  by (simp add: run_simps)

text \<open>
  C5 as stated fails: with \<open>coffee-art.jpg\<close> in the store and \<open>beans.jpg\<close> new, both
  groups are non-empty and the output is in input order.
\<close>

theorem both_groups_in_input_order:
  "fst (resolve_each quiet [JStr ''coffee-art.jpg'', JStr ''beans.jpg''] stocked) =
     Inr [(True, JFile coffee), (False, JFile beans)] \<and>
   fst (checkFileExistsBeforeUpload quiet
      (JArr [JStr ''coffee-art.jpg'', JStr ''beans.jpg'']) stocked) =
     Inr (JArr (map snd [(True, JFile coffee), (False, JFile beans)]))"
  by (simp add: run_simps)

theorem existing_first_then_uploaded_witness:
  "resolve_each quiet [JStr ''beans.jpg'', JStr ''coffee-art.jpg''] stocked =
     (Inr [(False, JFile beans), (True, JFile coffee)],
      stocked\<lparr>assets := [coffee, beans], upload_calls := [(beans_data, ''beans'')]\<rparr>) \<and>
   checkFileExistsBeforeUpload quiet (JArr [JStr ''beans.jpg'', JStr ''coffee-art.jpg'']) stocked =
     (Inr (JArr [JFile coffee, JFile beans]),
      stocked\<lparr>assets := [coffee, beans], upload_calls := [(beans_data, ''beans'')]\<rparr>)"
  using existing_first_then_uploaded [of "JArr [JStr ''beans.jpg'', JStr ''coffee-art.jpg'']"
      "[JStr ''beans.jpg'', JStr ''coffee-art.jpg'']" quiet stocked
      "JArr [JFile coffee, JFile beans]"
      "stocked\<lparr>assets := [coffee, beans], upload_calls := [(beans_data, ''beans'')]\<rparr>"]
    stocked_run
  by (auto simp: run_simps)

lemma uploadFile_success:
  "uploadFile env fd n w = (Inr xs, w') \<Longrightarrow>
   \<exists>a. xs = [a] \<and> asset_name a = n \<and> assets w' = assets w @ [a] \<and>
       upload_calls w' = upload_calls w @ [(fd, n)]"
  by (simp add: uploadFile_def Let_def split: if_splits) force

lemma getFileData_name: "getFileData env f = Inr fd \<Longrightarrow> fd_originalFilename fd = f"
  by (auto simp: getFileData_def Let_def split: option.splits)

lemma resolve_file_new:
  assumes none: "find (\<lambda>a. asset_name a = strip_extension f) (assets w) = None"
    and run: "resolve_file env (JStr f) w = (Inr x, w')"
  shows "\<exists>a fd. x = (False, JFile a) \<and> asset_name a = hd (split_dot f) \<and>
           fd_originalFilename fd = f \<and>
           assets w' = assets w @ [a] \<and>
           upload_calls w' = upload_calls w @ [(fd, hd (split_dot f))]"
proof -
  have query: "findOne_file env (strip_extension f) w = (Inr None, w)"
    using none run by (cases "file_query_fails env w (strip_extension f)")
      (simp_all add: findOne_file_def)
  obtain fd where fd: "getFileData env f = Inr fd"
    using run query by (cases "getFileData env f") simp_all
  obtain r2 w2 where up: "uploadFile env fd (hd (split_dot f)) w = (r2, w2)"
    by (cases "uploadFile env fd (hd (split_dot f)) w")
  from run query fd up obtain xs where xs: "r2 = Inr xs" "x = (False, first_of xs)" "w2 = w'"
    by (cases r2) (simp_all add: Let_def)
  from uploadFile_success [OF up [unfolded xs(1)]]
  obtain a where a: "xs = [a]" "asset_name a = hd (split_dot f)" "assets w2 = assets w @ [a]"
    "upload_calls w2 = upload_calls w @ [(fd, hd (split_dot f))]"
    by blast
  have "x = (False, JFile a)"
    using xs(2) a(1) by (simp add: first_of_def)
  with a xs(3) getFileData_name [OF fd] show ?thesis by blast
qed

lemma resolve_file_returns:
  assumes query: "\<not> file_query_fails env w (strip_extension f)"
    and new: "find (\<lambda>a. asset_name a = strip_extension f) (assets w) = None \<longrightarrow>
           statSync env (path_join env [''data'', ''uploads'', f]) \<noteq> None \<and>
           (\<forall>u fd. \<not> upload_fails env u fd (hd (split_dot f)))"
  shows "\<exists>x w'. resolve_file env (JStr f) w = (Inr x, w')"
proof (cases "find (\<lambda>a. asset_name a = strip_extension f) (assets w)")
  case (Some a)
  with query show ?thesis by (auto simp: findOne_file_def)
next
  case None
  with new obtain n where n: "statSync env (path_join env [''data'', ''uploads'', f]) = Some n"
    and up: "\<And>u fd. \<not> upload_fails env u fd (hd (split_dot f))"
    by auto
  from n obtain fd where fd: "getFileData env f = Inr fd"
    by (simp add: getFileData_def Let_def)
  have "\<exists>xs w'. uploadFile env fd (hd (split_dot f)) w = (Inr xs, w')"
    using up by (simp add: uploadFile_def Let_def)
  then show ?thesis
    using None query fd by (auto simp: findOne_file_def Let_def)
qed

lemma strip_extension_is_prefix:
  "\<not> list_ex is_line_terminator f \<Longrightarrow> strip_extension f = hd (split_dot f)"
  by (simp add: strip_extension_plain hd_split_dot)


lemma checkFiles_loop_fresh:
  assumes "\<forall>f\<in>set fs. \<not> list_ex is_line_terminator f"
    and "distinct (map strip_extension fs)"
    and "\<forall>f\<in>set fs. find (\<lambda>a. asset_name a = strip_extension f) (assets w) = None"
    and "checkFiles_loop env (map JStr fs) ex up w = (Inr (ex', up'), w')"
  shows "\<exists>rs calls. assets w' = assets w @ rs \<and> upload_calls w' = upload_calls w @ calls \<and>
           map asset_name rs = map strip_extension fs \<and>
           map (\<lambda>c. fd_originalFilename (fst c)) calls = fs \<and>
           ex' = ex \<and> up' = up @ map JFile rs"
  using assms
proof (induction fs arbitrary: ex up w)
  case Nil
  then show ?case by simp
next
  case (Cons f fs)
  obtain r1 w1 where step: "resolve_file env (JStr f) w = (r1, w1)"
    by (cases "resolve_file env (JStr f) w")
  from Cons.prems(4) step obtain x where r1: "r1 = Inr x"
    by (cases r1) auto
  have none: "find (\<lambda>a. asset_name a = strip_extension f) (assets w) = None"
    using Cons.prems(3) by simp
  from resolve_file_new [OF none step [unfolded r1]]
  obtain a fd where new: "x = (False, JFile a)" "asset_name a = hd (split_dot f)"
    "fd_originalFilename fd = f" "assets w1 = assets w @ [a]"
    "upload_calls w1 = upload_calls w @ [(fd, hd (split_dot f))]"
    by blast
  have name: "asset_name a = strip_extension f"
    using new(2) Cons.prems(1) by (simp add: strip_extension_is_prefix)
  have rest: "checkFiles_loop env (map JStr fs) ex (up @ [JFile a]) w1 = (Inr (ex', up'), w')"
    using Cons.prems(4) step r1 new(1) by simp
  have fresh': "\<forall>g\<in>set fs. find (\<lambda>a. asset_name a = strip_extension g) (assets w1) = None"
  proof
    fix g assume g: "g \<in> set fs"
    then have "strip_extension g \<noteq> strip_extension f"
      using Cons.prems(2) by (auto simp: image_iff)
    moreover have "find (\<lambda>a. asset_name a = strip_extension g) (assets w) = None"
      using Cons.prems(3) g by simp
    ultimately show "find (\<lambda>a. asset_name a = strip_extension g) (assets w1) = None"
      using new(4) name by (simp add: find_append_None)
  qed
  have "\<forall>f\<in>set fs. \<not> list_ex is_line_terminator f" "distinct (map strip_extension fs)"
    using Cons.prems(1,2) by simp_all
  from Cons.IH [OF this fresh' rest]
  obtain rs calls where ih: "assets w' = assets w1 @ rs" "upload_calls w' = upload_calls w1 @ calls"
    "map asset_name rs = map strip_extension fs"
    "map (\<lambda>c. fd_originalFilename (fst c)) calls = fs" "ex' = ex" "up' = (up @ [JFile a]) @ map JFile rs"
    by blast
  show ?case
    using ih new name
    by (intro exI [of _ "a # rs"] exI [of _ "(fd, hd (split_dot f)) # calls"]) simp
qed


lemma checkFiles_loop_returns:
  assumes "\<forall>u k. \<not> file_query_fails env u k"
    and "\<forall>f\<in>set fs. statSync env (path_join env [''data'', ''uploads'', f]) \<noteq> None"
    and "\<forall>u fd n. \<not> upload_fails env u fd n"
  shows "\<exists>r w'. checkFiles_loop env (map JStr fs) ex up w = (Inr r, w')"
  using assms(2)
proof (induction fs arbitrary: ex up w)
  case Nil
  show ?case by simp
next
  case (Cons f fs)
  have "\<exists>x w'. resolve_file env (JStr f) w = (Inr x, w')"
    using assms(1,3) Cons.prems by (intro resolve_file_returns) auto
  then obtain b item w1 where step: "resolve_file env (JStr f) w = (Inr (b, item), w1)"
    by auto
  have rest: "\<forall>f\<in>set fs. statSync env (path_join env [''data'', ''uploads'', f]) \<noteq> None"
    using Cons.prems by simp
  show ?case
    using step Cons.IH [OF rest] by (cases b) auto
qed


text \<open>
  C3, as amended. Take N filenames with no line break in them, whose names stripped at
  the first dot are pairwise distinct and match no record of the asset store. A call
  that returns has made exactly N uploads, one per filename in input order, has added N
  records to the store, and returns those N records: as a sequence, or, when N is 1, as
  the record itself. The call does return when no query, no file read and no upload
  fails.
\<close>

theorem fresh_files_all_uploaded:
  assumes "\<forall>f\<in>set fs. \<not> list_ex is_line_terminator f"
    and "distinct (map strip_extension fs)"
    and "\<forall>f\<in>set fs. find (\<lambda>a. asset_name a = strip_extension f) (assets w) = None"
  shows "(\<forall>v w'. checkFileExistsBeforeUpload env (JArr (map JStr fs)) w = (Inr v, w') \<longrightarrow>
            (\<exists>rs calls. length rs = length fs \<and> length calls = length fs \<and>
               assets w' = assets w @ rs \<and> upload_calls w' = upload_calls w @ calls \<and>
               map (\<lambda>c. fd_originalFilename (fst c)) calls = fs \<and>
               v = (if length fs = 1 then JFile (hd rs) else JArr (map JFile rs)))) \<and>
         ((\<forall>u k. \<not> file_query_fails env u k) \<and>
          (\<forall>f\<in>set fs. statSync env (path_join env [''data'', ''uploads'', f]) \<noteq> None) \<and>
          (\<forall>u fd n. \<not> upload_fails env u fd n) \<longrightarrow>
            (\<exists>v w'. checkFileExistsBeforeUpload env (JArr (map JStr fs)) w = (Inr v, w')))"
proof (intro conjI allI impI)
  fix v w'
  assume run: "checkFileExistsBeforeUpload env (JArr (map JStr fs)) w = (Inr v, w')"
  then obtain ex' up' where loop: "checkFiles_loop env (map JStr fs) [] [] w = (Inr (ex', up'), w')"
    and v: "v = (if length (ex' @ up') = 1 then hd (ex' @ up') else JArr (ex' @ up'))"
    by (auto simp: checkFileExistsBeforeUpload_def Let_def split: sum.splits prod.splits)
  from checkFiles_loop_fresh [OF assms loop]
  obtain rs calls where new: "assets w' = assets w @ rs" "upload_calls w' = upload_calls w @ calls"
    "map asset_name rs = map strip_extension fs"
    "map (\<lambda>c. fd_originalFilename (fst c)) calls = fs" "ex' = []" "up' = map JFile rs"
    by auto
  have len: "length rs = length fs" "length calls = length fs"
    using new(3,4) by (metis length_map)+
  have "v = (if length fs = 1 then JFile (hd rs) else JArr (map JFile rs))"
    using v new(5,6) len by (cases rs) auto
  with new len show "\<exists>rs calls. length rs = length fs \<and> length calls = length fs \<and>
      assets w' = assets w @ rs \<and> upload_calls w' = upload_calls w @ calls \<and>
      map (\<lambda>c. fd_originalFilename (fst c)) calls = fs \<and>
      v = (if length fs = 1 then JFile (hd rs) else JArr (map JFile rs))"
    by blast
next
  assume ok: "(\<forall>u k. \<not> file_query_fails env u k) \<and>
    (\<forall>f\<in>set fs. statSync env (path_join env [''data'', ''uploads'', f]) \<noteq> None) \<and>
    (\<forall>u fd n. \<not> upload_fails env u fd n)"
  then obtain r w' where "checkFiles_loop env (map JStr fs) [] [] w = (Inr r, w')"
    using checkFiles_loop_returns [of env fs "[]" "[]" w] by blast
  then show "\<exists>v w'. checkFileExistsBeforeUpload env (JArr (map JStr fs)) w = (Inr v, w')"
    by (cases r) (simp add: checkFileExistsBeforeUpload_def Let_def)
qed




theorem fresh_files_all_uploaded_witness:
  "\<exists>v w' rs calls.
     checkFileExistsBeforeUpload quiet (JArr (map JStr [''beans.jpg'', ''tea.jpg''])) stocked =
       (Inr v, w') \<and>
     length rs = 2 \<and> length calls = 2 \<and>
     assets w' = assets stocked @ rs \<and> upload_calls w' = upload_calls stocked @ calls \<and>
     map (\<lambda>c. fd_originalFilename (fst c)) calls = [''beans.jpg'', ''tea.jpg''] \<and>
     v = JArr (map JFile rs)"
proof -
  have plain: "\<forall>f\<in>set [''beans.jpg'', ''tea.jpg'']. \<not> list_ex is_line_terminator f"
    by (simp add: is_line_terminator_def)
  have names: "distinct (map strip_extension [''beans.jpg'', ''tea.jpg''])"
    by (simp add: is_line_terminator_def)
  have new: "\<forall>f\<in>set [''beans.jpg'', ''tea.jpg''].
      find (\<lambda>a. asset_name a = strip_extension f) (assets stocked) = None"
    by (simp add: is_line_terminator_def stocked_def fresh_def coffee_def)
  note all = fresh_files_all_uploaded [OF plain names new, of quiet]
  have "(\<forall>u k. \<not> file_query_fails quiet u k) \<and>
      (\<forall>f\<in>set [''beans.jpg'', ''tea.jpg''].
         statSync quiet (path_join quiet [''data'', ''uploads'', f]) \<noteq> None) \<and>
      (\<forall>u fd n. \<not> upload_fails quiet u fd n)"
    by (simp add: quiet_def)
  with all [THEN conjunct2] obtain v w' where run:
    "checkFileExistsBeforeUpload quiet (JArr (map JStr [''beans.jpg'', ''tea.jpg''])) stocked =
       (Inr v, w')"
    by blast
  from all [THEN conjunct1, rule_format, OF run]
  obtain rs calls where "length rs = length [''beans.jpg'', ''tea.jpg'']"
    "length calls = length [''beans.jpg'', ''tea.jpg'']"
    "assets w' = assets stocked @ rs" "upload_calls w' = upload_calls stocked @ calls"
    "map (\<lambda>c. fd_originalFilename (fst c)) calls = [''beans.jpg'', ''tea.jpg'']"
    "v = (if length [''beans.jpg'', ''tea.jpg''] = 1 then JFile (hd rs) else JArr (map JFile rs))"
    by (elim exE conjE)
  with run show ?thesis by auto
qed

text \<open>
  C3 as stated fails: \<open>photo.small.jpg\<close> and \<open>photo.large.jpg\<close> are distinct and
  match nothing in the empty store, yet one upload is made and the second name resolves
  to the record of the first.
\<close>

theorem shared_prefix_one_upload:
  "distinct [''photo.small.jpg'', ''photo.large.jpg''] \<and>
   assets fresh = [] \<and>
   checkFileExistsBeforeUpload quiet
      (JArr [JStr ''photo.small.jpg'', JStr ''photo.large.jpg'']) fresh =
     (Inr (JArr [JFile photo, JFile photo]),
      fresh\<lparr>assets := [photo],
        upload_calls :=
          [(\<lparr>fd_filepath = ''/data/uploads/photo.small.jpg'',
             fd_originalFilename = ''photo.small.jpg'',
             fd_type = Some ''image/jpeg'', fd_mimetype = Some ''image/jpeg'',
             fd_ext = ''jpg'', fd_size = 1\<rparr>, ''photo'')]\<rparr>)"
  by (simp add: run_simps photo_def)

lemma checkFileExistsBeforeUpload_single:
  assumes "spread files = Inr [x]"
  shows "checkFileExistsBeforeUpload env files w =
      (case resolve_file env x w of
         (Inl e, w1) \<Rightarrow> (Inl e, w1)
       | (Inr y, w1) \<Rightarrow> (Inr (snd y), w1))"
proof (cases "resolve_file env x w")
  case (Pair r1 w1)
  show ?thesis
  proof (cases r1)
    case (Inl e)
    with Pair assms show ?thesis
      by (simp add: checkFileExistsBeforeUpload_def)
  next
    case (Inr y)
    obtain b item where y: "y = (b, item)" by (cases y)
    show ?thesis
      using Pair Inr y assms
      by (cases b) (simp_all add: checkFileExistsBeforeUpload_def Let_def)
  qed
qed

lemma resolve_file_record:
  assumes "resolve_file env x w = (Inr y, w')"
  shows "\<exists>r. snd y = JFile r"
proof (cases x)
  case (JStr f)
  show ?thesis
  proof (cases "find (\<lambda>a. asset_name a = strip_extension f) (assets w)")
    case None
    from resolve_file_new [OF None assms [unfolded JStr]] show ?thesis by auto
  next
    case (Some a)
    with assms JStr show ?thesis
      by (auto simp: findOne_file_def split: if_splits)
  qed
qed (use assms in auto)

text \<open>
  C4. A call with exactly one input filename that returns, returns a single asset
  record, not a sequence; and it does return when the query does not fail and, should
  the name be new, the file is on disk and the upload does not fail.
\<close>

theorem single_file_scalar:
  assumes "spread files = Inr [x]"
  shows "(\<forall>v w'. checkFileExistsBeforeUpload env files w = (Inr v, w') \<longrightarrow>
            (\<exists>r. v = JFile r)) \<and>
         (\<forall>f. x = JStr f \<and> \<not> file_query_fails env w (strip_extension f) \<and>
              (find (\<lambda>a. asset_name a = strip_extension f) (assets w) = None \<longrightarrow>
                 statSync env (path_join env [''data'', ''uploads'', f]) \<noteq> None \<and>
                 (\<forall>u fd. \<not> upload_fails env u fd (hd (split_dot f)))) \<longrightarrow>
            (\<exists>r w'. checkFileExistsBeforeUpload env files w = (Inr (JFile r), w')))"
proof (intro conjI allI impI)
  fix v w'
  assume run: "checkFileExistsBeforeUpload env files w = (Inr v, w')"
  obtain r1 w1 where step: "resolve_file env x w = (r1, w1)"
    by (cases "resolve_file env x w")
  from run step obtain y where y: "r1 = Inr y" "v = snd y"
    unfolding checkFileExistsBeforeUpload_single [OF assms]
    by (cases r1) simp_all
  from resolve_file_record [OF step [unfolded y(1)]] y(2)
  show "\<exists>r. v = JFile r" by simp
next
  fix f
  assume ok: "x = JStr f \<and> \<not> file_query_fails env w (strip_extension f) \<and>
      (find (\<lambda>a. asset_name a = strip_extension f) (assets w) = None \<longrightarrow>
         statSync env (path_join env [''data'', ''uploads'', f]) \<noteq> None \<and>
         (\<forall>u fd. \<not> upload_fails env u fd (hd (split_dot f))))"
  then have "\<exists>y w'. resolve_file env (JStr f) w = (Inr y, w')"
    by (intro resolve_file_returns) blast+
  then obtain y w' where step: "resolve_file env x w = (Inr y, w')"
    using ok by blast
  from resolve_file_record [OF step] obtain r where "snd y = JFile r" ..
  with step have "checkFileExistsBeforeUpload env files w = (Inr (JFile r), w')"
    unfolding checkFileExistsBeforeUpload_single [OF assms] by simp
  then show "\<exists>r w'. checkFileExistsBeforeUpload env files w = (Inr (JFile r), w')"
    by blast
qed

theorem single_file_scalar_witness:
  "\<exists>r w'. checkFileExistsBeforeUpload quiet (JArr [JStr ''beans.jpg'']) stocked =
     (Inr (JFile r), w')"
proof -
  have "spread (JArr [JStr ''beans.jpg'']) = Inr [JStr ''beans.jpg'']"
    by simp
  note one = single_file_scalar [OF this, of quiet stocked, THEN conjunct2, rule_format,
      of "''beans.jpg''"]
  have query: "\<not> file_query_fails quiet stocked (strip_extension ''beans.jpg'')"
    by (simp add: quiet_def)
  have disk: "statSync quiet (path_join quiet [''data'', ''uploads'', ''beans.jpg'']) \<noteq> None"
    by (simp add: quiet_def)
  have upload: "\<forall>u fd. \<not> upload_fails quiet u fd (hd (split_dot ''beans.jpg''))"
    by (simp add: quiet_def)
  from query disk upload show ?thesis
    by (intro one conjI impI refl)
qed

text \<open>
  Without a line break in the second filename the two expressions agree: once a file
  has been uploaded, a filename sharing its prefix before the first dot resolves to a
  stored record of that name and is not uploaded.
\<close>

lemma shared_prefix_resolved:
  assumes "\<not> list_ex is_line_terminator g"
    and "hd (split_dot f) = hd (split_dot g)"
    and "find (\<lambda>a. asset_name a = strip_extension f) (assets w) = None"
    and "resolve_file env (JStr f) w = (Inr y, w1)"
    and "assets w2 = assets w1 @ later"
    and "resolve_file env (JStr g) w2 = (r, w3)"
  shows "\<exists>a. asset_name a = hd (split_dot g) \<and> a \<in> set (assets w2) \<and>
           strip_extension g = hd (split_dot g) \<and>
           upload_calls w3 = upload_calls w2 \<and>
           (r = Inl QueryError \<or> r = Inr (True, JFile a))"
proof -
  from resolve_file_new [OF assms(3,4)]
  obtain a where a: "asset_name a = hd (split_dot f)" "assets w1 = assets w @ [a]"
    by blast
  have key: "strip_extension g = hd (split_dot g)"
    using assms(1) by (rule strip_extension_is_prefix)
  have "\<exists>x. x \<in> set (assets w2) \<and> asset_name x = strip_extension g"
    using a assms(2,5) key by auto
  then obtain b where b: "find (\<lambda>a. asset_name a = strip_extension g) (assets w2) = Some b"
    by (cases "find (\<lambda>a. asset_name a = strip_extension g) (assets w2)")
       (auto simp: find_None_iff)
  then have "asset_name b = hd (split_dot g)" "b \<in> set (assets w2)"
    using key by (auto simp: find_Some_iff)
  moreover have "upload_calls w3 = upload_calls w2 \<and> (r = Inl QueryError \<or> r = Inr (True, JFile b))"
    using assms(6) b by (auto simp: findOne_file_def split: if_splits)
  ultimately show ?thesis using key by blast
qed

text \<open>
  C10 at a filename with a line feed after its first dot. The lookup key is the whole
  filename, while the upload is named by the prefix before the first dot. So after
  \<open>two_lines\<close> has been uploaded, \<open>two_lines'\<close>, which shares that prefix, is
  uploaded as well, and the store holds two records of the same name.
\<close>

theorem line_break_name_uploaded_again:
  "strip_extension two_lines = two_lines \<and>
   hd (split_dot two_lines) = ''a'' \<and>
   hd (split_dot two_lines') = ''a'' \<and>
   map asset_name (assets (snd (checkFileExistsBeforeUpload quiet (JArr [JStr two_lines'])
      (snd (checkFileExistsBeforeUpload quiet (JArr [JStr two_lines]) fresh))))) = [''a'', ''a''] \<and>
   map snd (upload_calls (snd (checkFileExistsBeforeUpload quiet (JArr [JStr two_lines'])
      (snd (checkFileExistsBeforeUpload quiet (JArr [JStr two_lines]) fresh))))) = [''a'', ''a'']"
  by (simp add: run_simps two_lines_def two_lines'_def)

subsection \<open>The block updater\<close>

lemma heap_resolve_file: "resolve_file env v w = (r, w') \<Longrightarrow> heap w' = heap w"
  by (cases v)
     (auto simp: findOne_file_def uploadFile_def Let_def
           split: prod.splits sum.splits option.splits if_splits)

lemma heap_checkFiles_loop:
  "checkFiles_loop env vs ex up w = (r, w') \<Longrightarrow> heap w' = heap w"
proof (induction vs arbitrary: ex up w)
  case Nil
  then show ?case by simp
next
  case (Cons v vs)
  obtain r1 w1 where step: "resolve_file env v w = (r1, w1)"
    by (cases "resolve_file env v w")
  have "heap w1 = heap w"
    using heap_resolve_file [OF step] .
  then show ?case
    using step Cons by (auto split: sum.splits prod.splits bool.splits)
qed

lemma heap_checkFileExistsBeforeUpload:
  "checkFileExistsBeforeUpload env files w = (r, w') \<Longrightarrow> heap w' = heap w"
  by (auto simp: checkFileExistsBeforeUpload_def Let_def
           split: prod.splits sum.splits dest: heap_checkFiles_loop)

lemma checkFiles_loop_records:
  assumes "checkFiles_loop env vs ex up w = (Inr (ex', up'), w')"
    and "list_all is_record ex" and "list_all is_record up"
  shows "list_all is_record ex' \<and> list_all is_record up'"
  using assms
proof (induction vs arbitrary: ex up w)
  case Nil
  then show ?case by simp
next
  case (Cons v vs)
  obtain r1 w1 where step: "resolve_file env v w = (r1, w1)"
    by (cases "resolve_file env v w")
  from Cons.prems(1) step obtain y where r1: "r1 = Inr y"
    by (cases r1) auto
  obtain b item where y: "y = (b, item)" by (cases y)
  have item: "is_record item"
    using resolve_file_record [OF step [unfolded r1]] y by (auto simp: is_record_def)
  show ?case
  proof (cases b)
    case True
    with Cons.prems step r1 y have "checkFiles_loop env vs (ex @ [item]) up w1 = (Inr (ex', up'), w')"
      by simp
    from Cons.IH [OF this] item Cons.prems(2,3) show ?thesis by simp
  next
    case False
    with Cons.prems step r1 y have "checkFiles_loop env vs ex (up @ [item]) w1 = (Inr (ex', up'), w')"
      by simp
    from Cons.IH [OF this] item Cons.prems(2,3) show ?thesis by simp
  qed
qed

lemma checkFileExistsBeforeUpload_records:
  assumes "checkFileExistsBeforeUpload env files w = (Inr v, w')"
  shows "only_records v"
proof -
  from assms obtain vs ex up where loop: "checkFiles_loop env vs [] [] w = (Inr (ex, up), w')"
    and v: "v = (if length (ex @ up) = 1 then hd (ex @ up) else JArr (ex @ up))"
    by (auto simp: checkFileExistsBeforeUpload_def Let_def split: sum.splits prod.splits)
  from checkFiles_loop_records [OF loop] have all: "list_all is_record (ex @ up)"
    by simp
  show ?thesis
  proof (cases "length (ex @ up) = 1")
    case True
    then obtain x where "ex @ up = [x]"
      by (cases "ex @ up") auto
    with all v show ?thesis
      by (auto simp: only_records_def is_record_def split: jsval.splits)
  next
    case False
    with all v show ?thesis
      by (simp add: only_records_def)
  qed
qed

lemma field_set_field_same: "field (set_field k v fs) k = v"
  by (induction fs) (auto simp: field_def)

lemma field_set_field_other: "k' \<noteq> k \<Longrightarrow> field (set_field k v fs) k' = field fs k'"
  by (induction fs) (auto simp: field_def)

lemma without_field_set_field: "without_field k (set_field k v fs) = without_field k fs"
  by (induction fs) (auto simp: without_field_def)

lemma update_block_result:
  assumes "update_block env b w = (r, w')"
  shows "(heap w' = heap w \<and> (\<exists>e. r = Inl e)) \<or>
         (\<exists>t. get_prop w b ''__component'' = Inr t \<and> t \<noteq> JStr ''shared.media'' \<and>
              t \<noteq> JStr ''shared.slider'' \<and> r = Inr b \<and> w' = w) \<or>
         (\<exists>x. get_prop w b ''__component'' = Inr (JStr ''shared.media'') \<and> is_record x \<and>
              r = Inr (JRef (length (heap w))) \<and>
              heap w' = heap w @ [set_field ''file'' x (own_fields w b)]) \<or>
         (\<exists>x. get_prop w b ''__component'' = Inr (JStr ''shared.slider'') \<and> only_records x \<and>
              r = Inr (JRef (length (heap w))) \<and>
              heap w' = heap w @ [set_field ''files'' x (own_fields w b)])"
proof (cases "get_prop w b ''__component''")
  case (Inl e)
  with assms have "r = Inl e" "w' = w"
    by (simp_all add: update_block_def)
  then show ?thesis by simp
next
  case (Inr t)
  consider (media) "t = JStr ''shared.media''" | (slider) "t = JStr ''shared.slider''"
    | (other) "t \<noteq> JStr ''shared.media''" "t \<noteq> JStr ''shared.slider''"
    by blast
  then show ?thesis
  proof cases
    case other
    with assms Inr have "r = Inr b" "w' = w"
      by (simp_all add: update_block_def)
    with Inr other show ?thesis by simp
  next
    case media
    show ?thesis
    proof (cases "get_prop w b ''file''")
      case (Inl e)
      with assms Inr media have "r = Inl e" "w' = w"
        by (simp_all add: update_block_def)
      then show ?thesis by simp
    next
      case fld: (Inr fl)
      obtain r1 w1 where run: "checkFileExistsBeforeUpload env (JArr [fl]) w = (r1, w1)"
        by (cases "checkFileExistsBeforeUpload env (JArr [fl]) w")
      note same = heap_checkFileExistsBeforeUpload [OF run]
      show ?thesis
      proof (cases r1)
        case (Inl e)
        with assms Inr media fld run have "r = Inl e" "w' = w1"
          by (simp_all add: update_block_def)
        with same show ?thesis by simp
      next
        case res: (Inr x)
        have "spread (JArr [fl]) = Inr [fl]" by simp
        note single = checkFileExistsBeforeUpload_single [OF this, of env w]
        obtain r2 w2 where step: "resolve_file env fl w = (r2, w2)"
          by (cases "resolve_file env fl w")
        from run res single step obtain y where y: "r2 = Inr y" "x = snd y"
          by (cases r2) simp_all
        from resolve_file_record [OF step [unfolded y(1)]] y(2) have rec: "is_record x"
          by (auto simp: is_record_def)
        have own: "own_fields w1 b = own_fields w b"
          using same by (cases b) simp_all
        from assms Inr media fld run res own
        have "r = Inr (JRef (length (heap w1)))"
          "heap w' = heap w1 @ [set_field ''file'' x (own_fields w b)]"
          by (auto simp: update_block_def alloc_def set_prop_def)
        with same rec Inr media show ?thesis by auto
      qed
    qed
  next
    case slider
    show ?thesis
    proof (cases "get_prop w b ''files''")
      case (Inl e)
      with assms Inr slider have "r = Inl e" "w' = w"
        by (simp_all add: update_block_def)
      then show ?thesis by simp
    next
      case fld: (Inr fls)
      obtain r1 w1 where run: "checkFileExistsBeforeUpload env fls w = (r1, w1)"
        by (cases "checkFileExistsBeforeUpload env fls w")
      note same = heap_checkFileExistsBeforeUpload [OF run]
      show ?thesis
      proof (cases r1)
        case (Inl e)
        with assms Inr slider fld run have "r = Inl e" "w' = w1"
          by (simp_all add: update_block_def)
        with same show ?thesis by simp
      next
        case res: (Inr x)
        from checkFileExistsBeforeUpload_records [OF run [unfolded res]]
        have rec: "only_records x" .
        have own: "own_fields w1 b = own_fields w b"
          using same by (cases b) simp_all
        from assms Inr slider fld run res own
        have "r = Inr (JRef (length (heap w1)))"
          "heap w' = heap w1 @ [set_field ''files'' x (own_fields w b)]"
          by (auto simp: update_block_def alloc_def set_prop_def)
        with same rec Inr slider show ?thesis by auto
      qed
    qed
  qed
qed

lemma get_prop_stable:
  assumes "prefix (heap w) (heap w1)" and "get_prop w v k = Inr t"
  shows "get_prop w1 v k' = get_prop w v k' \<and> own_fields w1 v = own_fields w v"
proof (cases v)
  case (JRef a)
  from assms(1) obtain zs where "heap w1 = heap w @ zs"
    by (auto simp: prefix_def)
  moreover from assms(2) JRef have "a < length (heap w)"
    by (simp split: if_splits)
  ultimately show ?thesis
    using JRef by (simp add: nth_append)
qed simp_all

lemma shallow_copy_mono:
  assumes "shallow_copy w1 w2 b k v" and "prefix (heap w) (heap w1)"
    and "prefix (heap w2) (heap w')" and "own_fields w1 b = own_fields w b"
  shows "shallow_copy w w' b k v"
proof -
  from assms(2) obtain ys where ys: "heap w1 = heap w @ ys"
    by (auto simp: prefix_def)
  from assms(3) obtain zs where zs: "heap w' = heap w2 @ zs"
    by (auto simp: prefix_def)
  from assms(1,4) ys zs show ?thesis
    by (auto simp: shallow_copy_def nth_append split: jsval.splits)
qed

lemma updated_as_mono:
  assumes "updated_as w1 w' b v" and "prefix (heap w) (heap w1)"
  shows "updated_as w w' b v"
proof (cases "get_prop w b ''__component''")
  case (Inl e)
  then show ?thesis by (simp add: updated_as_def)
next
  case (Inr t)
  from get_prop_stable [OF assms(2) Inr]
  have same: "get_prop w1 b ''__component'' = Inr t" "own_fields w1 b = own_fields w b"
    using Inr by simp_all
  have copy: "shallow_copy w1 w' b k v \<Longrightarrow> shallow_copy w w' b k v" for k
    using shallow_copy_mono [OF _ assms(2) _ same(2)] by blast
  from assms(1) same(1) Inr copy show ?thesis
    by (auto simp: updated_as_def split: if_splits)
qed

lemma update_block_frame:
  assumes "update_block env b w = (r, w1)"
  shows "prefix (heap w) (heap w1)"
  using update_block_result [OF assms] by auto

lemma update_block_updated_as:
  assumes "update_block env b w = (Inr v, w1)" and "prefix (heap w1) (heap w')"
  shows "updated_as w w' b v"
proof -
  from assms(2) obtain zs where zs: "heap w' = heap w1 @ zs"
    by (auto simp: prefix_def)
  from update_block_result [OF assms(1)] show ?thesis
  proof (elim disjE exE conjE)
    fix x
    assume "get_prop w b ''__component'' = Inr (JStr ''shared.media'')"
      "Inr v = Inr (JRef (length (heap w)))"
      "heap w1 = heap w @ [set_field ''file'' x (own_fields w b)]"
    with zs show ?thesis
      by (simp add: updated_as_def shallow_copy_def nth_append without_field_set_field)
  next
    fix x
    assume "get_prop w b ''__component'' = Inr (JStr ''shared.slider'')"
      "Inr v = Inr (JRef (length (heap w)))"
      "heap w1 = heap w @ [set_field ''files'' x (own_fields w b)]"
    with zs show ?thesis
      by (simp add: updated_as_def shallow_copy_def nth_append without_field_set_field)
  qed (auto simp: updated_as_def)
qed

lemma updateBlocks_loop_frame:
  assumes "updateBlocks_loop env bs acc w = (r, w')"
  shows "prefix (heap w) (heap w') \<and>
         (\<forall>out. r = Inr out \<longrightarrow>
            (\<exists>new. out = acc @ new \<and> length new = length bs \<and>
               (\<forall>i<length bs. updated_as w w' (bs ! i) (new ! i))))"
  using assms
proof (induction bs arbitrary: acc w)
  case Nil
  then show ?case by auto
next
  case (Cons b bs)
  obtain r1 w1 where step: "update_block env b w = (r1, w1)"
    by (cases "update_block env b w")
  note grow = update_block_frame [OF step]
  show ?case
  proof (cases r1)
    case (Inl e)
    with Cons.prems step grow show ?thesis by auto
  next
    case (Inr v)
    with Cons.prems step have rest: "updateBlocks_loop env bs (acc @ [v]) w1 = (r, w')"
      by simp
    note ih = Cons.IH [OF rest]
    from ih have grow': "prefix (heap w1) (heap w')" by blast
    have frame: "prefix (heap w) (heap w')"
      using grow grow' by (rule prefix_order.trans)
    have head: "updated_as w w' b v"
      using update_block_updated_as [OF step [unfolded Inr] grow'] .
    have out: "\<exists>new. out = acc @ new \<and> length new = length (b # bs) \<and>
        (\<forall>i<length (b # bs). updated_as w w' ((b # bs) ! i) (new ! i))" if "r = Inr out" for out
    proof -
      from ih that obtain new where new: "out = (acc @ [v]) @ new" "length new = length bs"
        "\<forall>i<length bs. updated_as w1 w' (bs ! i) (new ! i)"
        by blast
      have "updated_as w w' ((b # bs) ! i) ((v # new) ! i)" if "i < length (b # bs)" for i
      proof (cases i)
        case 0
        with head show ?thesis by simp
      next
        case (Suc j)
        with that new(3) have "updated_as w1 w' (bs ! j) (new ! j)" by simp
        from updated_as_mono [OF this grow] Suc show ?thesis by simp
      qed
      with new(1,2) show ?thesis
        by (intro exI [of _ "v # new"]) simp
    qed
    from frame out show ?thesis by blast
  qed
qed

text \<open>
  C6. The block updater never writes to an object that was on the heap before the call:
  the heap it leaves is the heap it found, with new objects after it. When it returns,
  the sequence it returns has the length of the input; a block whose tag is neither
  \<open>shared.media\<close> nor \<open>shared.slider\<close> is at its position unchanged (the same
  value, so the same object); and a media or slider block is replaced at its position
  by a shallow copy, a new object with the fields of the block except for \<open>file\<close>
  (or \<open>files\<close>).
\<close>

theorem updateBlocks_copies:
  assumes "updateBlocks env blocks w = (r, w')"
  shows "prefix (heap w) (heap w') \<and>
         (\<forall>out. r = Inr out \<longrightarrow>
            (\<exists>bs. spread blocks = Inr bs \<and> length out = length bs \<and>
               (\<forall>i<length bs. \<forall>t. get_prop w (bs ! i) ''__component'' = Inr t \<longrightarrow>
                  (t \<noteq> JStr ''shared.media'' \<and> t \<noteq> JStr ''shared.slider'' \<longrightarrow>
                     out ! i = bs ! i) \<and>
                  (t = JStr ''shared.media'' \<longrightarrow>
                     shallow_copy w w' (bs ! i) ''file'' (out ! i)) \<and>
                  (t = JStr ''shared.slider'' \<longrightarrow>
                     shallow_copy w w' (bs ! i) ''files'' (out ! i)))))"
proof (cases "spread blocks")
  case (Inl e)
  with assms show ?thesis by (auto simp: updateBlocks_def)
next
  case (Inr bs)
  with assms have loop: "updateBlocks_loop env bs [] w = (r, w')"
    by (simp add: updateBlocks_def)
  note frame = updateBlocks_loop_frame [OF loop]
  have "\<exists>bs. spread blocks = Inr bs \<and> length out = length bs \<and>
      (\<forall>i<length bs. \<forall>t. get_prop w (bs ! i) ''__component'' = Inr t \<longrightarrow>
         (t \<noteq> JStr ''shared.media'' \<and> t \<noteq> JStr ''shared.slider'' \<longrightarrow> out ! i = bs ! i) \<and>
         (t = JStr ''shared.media'' \<longrightarrow> shallow_copy w w' (bs ! i) ''file'' (out ! i)) \<and>
         (t = JStr ''shared.slider'' \<longrightarrow> shallow_copy w w' (bs ! i) ''files'' (out ! i)))"
    if "r = Inr out" for out
  proof -
    from frame that have len: "length out = length bs"
      and each: "\<forall>i<length bs. updated_as w w' (bs ! i) (out ! i)"
      by auto
    from each have "\<forall>i<length bs. \<forall>t. get_prop w (bs ! i) ''__component'' = Inr t \<longrightarrow>
         (t \<noteq> JStr ''shared.media'' \<and> t \<noteq> JStr ''shared.slider'' \<longrightarrow> out ! i = bs ! i) \<and>
         (t = JStr ''shared.media'' \<longrightarrow> shallow_copy w w' (bs ! i) ''file'' (out ! i)) \<and>
         (t = JStr ''shared.slider'' \<longrightarrow> shallow_copy w w' (bs ! i) ''files'' (out ! i))"
      by (auto simp: updated_as_def)
    with Inr len show ?thesis by blast
  qed
  with frame show ?thesis by blast
qed

lemma resolved_block_stable:
  assumes "resolved_block w v" and "prefix (heap w) (heap w1)"
  shows "resolved_block w1 v"
proof (cases "get_prop w v ''__component''")
  case (Inl e)
  with assms(1) show ?thesis by (simp add: resolved_block_def)
next
  case (Inr t)
  from get_prop_stable [OF assms(2) Inr]
  have "get_prop w1 v k = get_prop w v k" for k by simp
  then have "resolved_block w1 v = resolved_block w v"
    by (simp only: resolved_block_def)
  with assms(1) show ?thesis by simp
qed

lemma get_prop_own_fields:
  "get_prop w b k = Inr t \<Longrightarrow> t \<noteq> JUndefined \<Longrightarrow> field (own_fields w b) k = t"
  by (cases b) (auto split: if_splits)

lemma update_block_resolved:
  assumes "update_block env b w = (Inr v, w1)"
  shows "resolved_block w1 v"
  using update_block_result [OF assms]
proof (elim disjE exE conjE)
  fix x
  assume tag: "get_prop w b ''__component'' = Inr (JStr ''shared.media'')"
    and x: "is_record x"
    and v: "Inr v = Inr (JRef (length (heap w)))"
    and heap: "heap w1 = heap w @ [set_field ''file'' x (own_fields w b)]"
  have "field (own_fields w b) ''__component'' = JStr ''shared.media''"
    using get_prop_own_fields [OF tag] by simp
  with x v heap show ?thesis
    by (simp add: resolved_block_def field_set_field_same field_set_field_other)
next
  fix x
  assume tag: "get_prop w b ''__component'' = Inr (JStr ''shared.slider'')"
    and x: "only_records x"
    and v: "Inr v = Inr (JRef (length (heap w)))"
    and heap: "heap w1 = heap w @ [set_field ''files'' x (own_fields w b)]"
  have "field (own_fields w b) ''__component'' = JStr ''shared.slider''"
    using get_prop_own_fields [OF tag] by simp
  with x v heap show ?thesis
    by (simp add: resolved_block_def field_set_field_same field_set_field_other)
qed (auto simp: resolved_block_def)

lemma updateBlocks_loop_resolved:
  assumes "updateBlocks_loop env bs acc w = (Inr out, w')"
    and "list_all (resolved_block w) acc"
  shows "list_all (resolved_block w') out"
  using assms
proof (induction bs arbitrary: acc w)
  case Nil
  then show ?case by simp
next
  case (Cons b bs)
  obtain r1 w1 where step: "update_block env b w = (r1, w1)"
    by (cases "update_block env b w")
  from Cons.prems(1) step obtain v where v: "r1 = Inr v"
    by (cases r1) auto
  with Cons.prems(1) step have rest: "updateBlocks_loop env bs (acc @ [v]) w1 = (Inr out, w')"
    by simp
  have "list_all (resolved_block w1) acc"
    using Cons.prems(2) resolved_block_stable [OF _ update_block_frame [OF step]]
    by (auto simp: list_all_iff)
  moreover have "resolved_block w1 v"
    using update_block_resolved [OF step [unfolded v]] .
  ultimately have "list_all (resolved_block w1) (acc @ [v])"
    by simp
  from Cons.IH [OF rest this] show ?case .
qed

lemma assets_resolve_file:
  "resolve_file env v w = (r, w') \<Longrightarrow> prefix (assets w) (assets w')"
  by (cases v)
     (auto simp: findOne_file_def uploadFile_def Let_def
           split: prod.splits sum.splits option.splits if_splits)

lemma resolved_as_mono:
  "resolved_as store v y \<Longrightarrow> prefix store store' \<Longrightarrow> resolved_as store' v y"
  by (auto simp: resolved_as_def prefix_def split: jsval.splits)

lemma resolve_file_resolved:
  assumes "resolve_file env v w = (Inr y, w')"
  shows "resolved_as (assets w') v y"
proof (cases v)
  case (JStr f)
  show ?thesis
  proof (cases "find (\<lambda>a. asset_name a = strip_extension f) (assets w)")
    case None
    from resolve_file_new [OF None assms [unfolded JStr]] JStr show ?thesis
      by (auto simp: resolved_as_def)
  next
    case (Some a)
    then have "a \<in> set (assets w)" "asset_name a = strip_extension f"
      by (auto simp: find_Some_iff)
    with assms JStr Some show ?thesis
      by (auto simp: findOne_file_def resolved_as_def split: if_splits)
  qed
qed (use assms in auto)

lemma resolve_each_resolved:
  assumes "resolve_each env vs w = (Inr ys, w')"
  shows "length ys = length vs \<and> prefix (assets w) (assets w') \<and>
         (\<forall>j<length vs. resolved_as (assets w') (vs ! j) (ys ! j))"
  using assms
proof (induction vs arbitrary: w ys)
  case Nil
  then show ?case by simp
next
  case (Cons v vs)
  obtain r1 w1 where step: "resolve_file env v w = (r1, w1)"
    by (cases "resolve_file env v w")
  from Cons.prems step obtain y where y: "r1 = Inr y"
    by (cases r1) auto
  obtain r2 w2 where rest: "resolve_each env vs w1 = (r2, w2)"
    by (cases "resolve_each env vs w1")
  from Cons.prems step y rest obtain ys' where ys': "r2 = Inr ys'" "ys = y # ys'" "w2 = w'"
    by (cases r2) auto
  note ih = Cons.IH [OF rest [unfolded ys'(1) ys'(3)]]
  note grow1 = assets_resolve_file [OF step]
  from ih have grow2: "prefix (assets w1) (assets w')" by blast
  have head: "resolved_as (assets w') v y"
    using resolved_as_mono [OF resolve_file_resolved [OF step [unfolded y]] grow2] .
  have "resolved_as (assets w') ((v # vs) ! j) (ys ! j)" if "j < length (v # vs)" for j
  proof (cases j)
    case 0
    with head ys'(2) show ?thesis by simp
  next
    case (Suc k)
    with that ih ys'(2) show ?thesis by simp
  qed
  moreover have "prefix (assets w) (assets w')"
    using grow1 grow2 by (rule prefix_order.trans)
  ultimately show ?case using ih ys'(2) by simp
qed

lemma checkFileExistsBeforeUpload_resolved:
  assumes "checkFileExistsBeforeUpload env files w = (Inr x, w')"
  shows "files_resolved (assets w') files x \<and> prefix (assets w) (assets w')"
proof -
  from assms obtain names where names: "spread files = Inr names"
    by (cases "spread files") (auto simp: checkFileExistsBeforeUpload_def)
  obtain r1 w1 where each: "resolve_each env names w = (r1, w1)"
    by (cases "resolve_each env names w")
  have loop: "checkFiles_loop env names [] [] w =
      (case r1 of Inl e \<Rightarrow> (Inl e, w1)
       | Inr ys \<Rightarrow> (Inr (map snd (filter fst ys), map snd (filter (\<lambda>y. \<not> fst y) ys)), w1))"
    using checkFiles_loop_resolve_each [of env names "[]" "[]" w] each
    by (cases r1) simp_all
  from assms names loop obtain ys where ys: "r1 = Inr ys" and w1: "w1 = w'"
    by (cases r1) (auto simp: checkFileExistsBeforeUpload_def Let_def)
  from assms names loop ys have x: "x = arranged ys"
    by (simp add: checkFileExistsBeforeUpload_def arranged_def Let_def)
  from resolve_each_resolved [OF each [unfolded ys w1]] names x show ?thesis
    by (auto simp: files_resolved_def)
qed

lemma assets_checkFileExistsBeforeUpload:
  assumes "checkFileExistsBeforeUpload env files w = (r, w')"
  shows "prefix (assets w) (assets w')"
proof (cases "spread files")
  case (Inl e)
  with assms show ?thesis by (simp add: checkFileExistsBeforeUpload_def)
next
  case (Inr vs)
  have loop: "checkFiles_loop env vs ex up u = (q, u') \<Longrightarrow> prefix (assets u) (assets u')"
    for ex up u q u'
  proof (induction vs arbitrary: ex up u)
    case Nil
    then show ?case by simp
  next
    case (Cons v vs)
    obtain r1 w1 where step: "resolve_file env v u = (r1, w1)"
      by (cases "resolve_file env v u")
    note grow = assets_resolve_file [OF step]
    show ?case
    proof (cases r1)
      case (Inl e)
      with Cons.prems step grow show ?thesis by simp
    next
      case (Inr y)
      obtain b item where y: "y = (b, item)" by (cases y)
      from Cons.prems step Inr y
      have "checkFiles_loop env vs (if b then ex @ [item] else ex)
          (if b then up else up @ [item]) w1 = (q, u')"
        by (cases b) simp_all
      from Cons.IH [OF this] grow show ?thesis by (rule prefix_order.trans [rotated])
    qed
  qed
  obtain r1 w1 where run: "checkFiles_loop env vs [] [] w = (r1, w1)"
    by (cases "checkFiles_loop env vs [] [] w")
  from assms Inr run have "w1 = w'"
    by (cases r1) (auto simp: checkFileExistsBeforeUpload_def Let_def split: prod.splits)
  with loop [OF run] show ?thesis by simp
qed

lemma files_resolved_mono:
  "files_resolved store files x \<Longrightarrow> prefix store store' \<Longrightarrow> files_resolved store' files x"
proof -
  assume res: "files_resolved store files x" and grow: "prefix store store'"
  from res obtain names ys where ys: "spread files = Inr names" "length ys = length names"
    "\<forall>j<length names. resolved_as store (names ! j) (ys ! j)" "x = arranged ys"
    by (auto simp: files_resolved_def)
  from ys(3) grow have "\<forall>j<length names. resolved_as store' (names ! j) (ys ! j)"
    by (auto intro: resolved_as_mono)
  with ys(1,2,4) show ?thesis
    unfolding files_resolved_def by blast
qed

lemma arranged_single: "arranged [y] = snd y"
  by (cases "fst y") (simp_all add: arranged_def)

lemma files_resolved_records:
  assumes "files_resolved store files x"
  shows "only_records x"
proof -
  from assms obtain names ys where ys: "length ys = length names"
    "\<forall>j<length names. resolved_as store (names ! j) (ys ! j)" "x = arranged ys"
    by (auto simp: files_resolved_def)
  have "is_record (snd y)" if "y \<in> set ys" for y
  proof -
    from that obtain j where "j < length ys" "ys ! j = y"
      by (auto simp: in_set_conv_nth)
    with ys(1,2) have "resolved_as store (names ! j) y" by auto
    then show ?thesis
      by (auto simp: resolved_as_def is_record_def split: jsval.splits)
  qed
  then have all: "list_all is_record (map snd (filter fst ys) @ map snd (filter (\<lambda>y. \<not> fst y) ys))"
    by (auto simp: list_all_iff)
  show ?thesis
  proof (cases "length (map snd (filter fst ys) @ map snd (filter (\<lambda>y. \<not> fst y) ys)) = 1")
    case True
    then obtain z where z: "map snd (filter fst ys) @ map snd (filter (\<lambda>y. \<not> fst y) ys) = [z]"
      by (cases "map snd (filter fst ys) @ map snd (filter (\<lambda>y. \<not> fst y) ys)") auto
    with all have "is_record z" by simp
    moreover from ys(3) z have "x = z"
      by (simp add: arranged_def Let_def del: map_append)
    ultimately show ?thesis
      by (auto simp: only_records_def is_record_def split: jsval.splits)
  next
    case False
    with ys(3) all show ?thesis
      by (simp add: arranged_def Let_def only_records_def del: map_append)
  qed
qed

lemma copy_block:
  "(case alloc fs u of (a, w2) \<Rightarrow> (Inr (JRef a), set_prop a k x w2)) =
     (Inr (JRef (length (heap u))), u\<lparr>heap := heap u @ [set_field k x fs]\<rparr>)"
  by (simp add: alloc_def set_prop_def)

lemma assets_update_block:
  assumes "update_block env b w = (r, w1)"
  shows "prefix (assets w) (assets w1)"
proof -
  have check: "prefix (assets w) (assets u)"
    if "checkFileExistsBeforeUpload env fs w = (q, u)" for fs q u
    using assets_checkFileExistsBeforeUpload [OF that] .
  show ?thesis
    using assms unfolding update_block_def copy_block
    by (auto split: sum.splits if_splits prod.splits dest!: check)
qed

lemma update_block_resolved_from:
  assumes "update_block env b w = (Inr v, w1)"
  shows "resolved_from w w1 b v"
proof (cases "get_prop w b ''__component''")
  case (Inl e)
  then show ?thesis by (simp add: resolved_from_def)
next
  case (Inr t)
  consider (media) "t = JStr ''shared.media''" | (slider) "t = JStr ''shared.slider''"
    | (other) "t \<noteq> JStr ''shared.media''" "t \<noteq> JStr ''shared.slider''"
    by blast
  then show ?thesis
  proof cases
    case other
    with Inr show ?thesis by (simp add: resolved_from_def)
  next
    case media
    from assms Inr media obtain name where name: "get_prop w b ''file'' = Inr name"
      by (cases "get_prop w b ''file''") (auto simp: update_block_def)
    obtain r1 u where run: "checkFileExistsBeforeUpload env (JArr [name]) w = (r1, u)"
      by (cases "checkFileExistsBeforeUpload env (JArr [name]) w")
    from assms Inr media name run obtain x where x: "r1 = Inr x"
      by (cases r1) (auto simp: update_block_def)
    from assms Inr media name run x
    have v: "v = JRef (length (heap u))"
      and w1: "w1 = u\<lparr>heap := heap u @ [set_field ''file'' x (own_fields u b)]\<rparr>"
      by (simp_all add: update_block_def copy_block)
    have own: "own_fields u b = own_fields w b"
      using heap_checkFileExistsBeforeUpload [OF run] by (cases b) simp_all
    have tag: "field (own_fields w b) ''__component'' = JStr ''shared.media''"
      using get_prop_own_fields [OF Inr] media by simp
    have "files_resolved (assets w1) (JArr [name]) x"
      using checkFileExistsBeforeUpload_resolved [OF run [unfolded x]] w1 by simp
    moreover have "get_prop w1 v ''__component'' = Inr (JStr ''shared.media'')"
      using v w1 own tag by (simp add: field_set_field_other)
    moreover have "get_prop w1 v ''file'' = Inr x"
      using v w1 by (simp add: field_set_field_same)
    ultimately show ?thesis
      using Inr media name by (auto simp: resolved_from_def)
  next
    case slider
    from assms Inr slider obtain names where names: "get_prop w b ''files'' = Inr names"
      by (cases "get_prop w b ''files''") (auto simp: update_block_def)
    obtain r1 u where run: "checkFileExistsBeforeUpload env names w = (r1, u)"
      by (cases "checkFileExistsBeforeUpload env names w")
    from assms Inr slider names run obtain x where x: "r1 = Inr x"
      by (cases r1) (auto simp: update_block_def)
    from assms Inr slider names run x
    have v: "v = JRef (length (heap u))"
      and w1: "w1 = u\<lparr>heap := heap u @ [set_field ''files'' x (own_fields u b)]\<rparr>"
      by (simp_all add: update_block_def copy_block)
    have own: "own_fields u b = own_fields w b"
      using heap_checkFileExistsBeforeUpload [OF run] by (cases b) simp_all
    have tag: "field (own_fields w b) ''__component'' = JStr ''shared.slider''"
      using get_prop_own_fields [OF Inr] slider by simp
    have "files_resolved (assets w1) names x"
      using checkFileExistsBeforeUpload_resolved [OF run [unfolded x]] w1 by simp
    moreover have "get_prop w1 v ''__component'' = Inr (JStr ''shared.slider'')"
      using v w1 own tag by (simp add: field_set_field_other)
    moreover have "get_prop w1 v ''files'' = Inr x"
      using v w1 by (simp add: field_set_field_same)
    ultimately show ?thesis
      using Inr slider names by (auto simp: resolved_from_def)
  qed
qed

lemma resolved_from_mono:
  assumes "resolved_from w1 w2 b v" and "prefix (heap w) (heap w1)"
    and "prefix (heap w2) (heap w')" and "prefix (assets w2) (assets w')"
  shows "resolved_from w w' b v"
proof (cases "get_prop w b ''__component''")
  case (Inl e)
  then show ?thesis by (simp add: resolved_from_def)
next
  case (Inr t)
  from get_prop_stable [OF assms(2) Inr]
  have before: "get_prop w1 b k = get_prop w b k" for k by simp
  have after: "get_prop w' v k = Inr y" if "get_prop w2 v k = Inr y" for k y
    using get_prop_stable [OF assms(3) that, of k] that by simp
  have store: "files_resolved (assets w') fs x" if "files_resolved (assets w2) fs x" for fs x
    using files_resolved_mono [OF that assms(4)] .
  from assms(1) Inr before [of "''__component''"] show ?thesis
    unfolding resolved_from_def
    by (auto simp: before split: if_splits intro!: after store)
qed

lemma updateBlocks_loop_resolved_from:
  assumes "updateBlocks_loop env bs acc w = (r, w')"
  shows "prefix (heap w) (heap w') \<and> prefix (assets w) (assets w') \<and>
         (\<forall>out. r = Inr out \<longrightarrow>
            (\<exists>new. out = acc @ new \<and> length new = length bs \<and>
               (\<forall>i<length bs. resolved_from w w' (bs ! i) (new ! i))))"
  using assms
proof (induction bs arbitrary: acc w)
  case Nil
  then show ?case by auto
next
  case (Cons b bs)
  obtain r1 w1 where step: "update_block env b w = (r1, w1)"
    by (cases "update_block env b w")
  note grow = update_block_frame [OF step]
  note more = assets_update_block [OF step]
  show ?case
  proof (cases r1)
    case (Inl e)
    with Cons.prems step grow more show ?thesis by auto
  next
    case (Inr v)
    with Cons.prems step have rest: "updateBlocks_loop env bs (acc @ [v]) w1 = (r, w')"
      by simp
    note ih = Cons.IH [OF rest]
    from ih have grow': "prefix (heap w1) (heap w')" and more': "prefix (assets w1) (assets w')"
      by blast+
    have frame: "prefix (heap w) (heap w')" "prefix (assets w) (assets w')"
      using grow grow' more more' by (auto intro: prefix_order.trans)
    have head: "resolved_from w w' b v"
      using resolved_from_mono [OF update_block_resolved_from [OF step [unfolded Inr]]
          prefix_order.refl grow' more'] .
    have out: "\<exists>new. out = acc @ new \<and> length new = length (b # bs) \<and>
        (\<forall>i<length (b # bs). resolved_from w w' ((b # bs) ! i) (new ! i))" if "r = Inr out" for out
    proof -
      from ih that obtain new where new: "out = (acc @ [v]) @ new" "length new = length bs"
        "\<forall>i<length bs. resolved_from w1 w' (bs ! i) (new ! i)"
        by blast
      have "resolved_from w w' ((b # bs) ! i) ((v # new) ! i)" if "i < length (b # bs)" for i
      proof (cases i)
        case 0
        with head show ?thesis by simp
      next
        case (Suc j)
        with that new(3) have "resolved_from w1 w' (bs ! j) (new ! j)" by simp
        from resolved_from_mono [OF this grow prefix_order.refl prefix_order.refl] Suc
        show ?thesis by simp
      qed
      with new(1,2) show ?thesis
        by (intro exI [of _ "v # new"]) simp
    qed
    from frame out show ?thesis by blast
  qed
qed

lemma files_resolved_single:
  assumes "files_resolved store (JArr [name]) x"
  shows "\<exists>f found r. name = JStr f \<and> x = JFile r \<and>
           resolved_as store (JStr f) (found, JFile r)"
proof -
  from assms obtain ys where ys: "length ys = 1" "resolved_as store name (ys ! 0)"
    "x = arranged ys"
    by (auto simp: files_resolved_def)
  from ys(1) obtain y where y: "ys = [y]"
    by (cases ys) auto
  with ys(2) obtain f r where "name = JStr f" "snd y = JFile r"
    by (auto simp: resolved_as_def split: jsval.splits)
  moreover from ys(3) y have "x = snd y"
    by (simp add: arranged_single)
  moreover have "y = (fst y, snd y)" by simp
  ultimately show ?thesis
    using ys(2) y by (metis nth_Cons_0)
qed

text \<open>
  C7. When the block updater returns, the sequence it returns has the length of the
  input, and at the position of every input block tagged \<open>shared.media\<close> stands a
  media block whose \<open>file\<close> field is no longer the filename of the input block but
  the asset record that filename resolves to: a record of the asset store, found
  under the filename's lookup key or uploaded under its upload name. At the position
  of every input block tagged \<open>shared.slider\<close> stands a slider whose \<open>files\<close> field
  is the resolution of the input block's filenames: asset records of the store only
  (the found ones first; one record alone when there is exactly one). So, as the
  claim words it, every block of the returned sequence that is tagged
  \<open>shared.media\<close> has an asset record as its \<open>file\<close>, and every one tagged
  \<open>shared.slider\<close> has only asset records in its \<open>files\<close>: no filename string
  is left.
\<close>

theorem updateBlocks_resolves:
  assumes "updateBlocks env blocks w = (Inr out, w')"
  shows "(\<exists>bs. spread blocks = Inr bs \<and> length out = length bs \<and>
            (\<forall>i<length bs.
               (get_prop w (bs ! i) ''__component'' = Inr (JStr ''shared.media'') \<longrightarrow>
                  (\<exists>f found r. get_prop w (bs ! i) ''file'' = Inr (JStr f) \<and>
                     get_prop w' (out ! i) ''__component'' = Inr (JStr ''shared.media'') \<and>
                     get_prop w' (out ! i) ''file'' = Inr (JFile r) \<and>
                     resolved_as (assets w') (JStr f) (found, JFile r))) \<and>
               (get_prop w (bs ! i) ''__component'' = Inr (JStr ''shared.slider'') \<longrightarrow>
                  (\<exists>names x. get_prop w (bs ! i) ''files'' = Inr names \<and>
                     get_prop w' (out ! i) ''__component'' = Inr (JStr ''shared.slider'') \<and>
                     get_prop w' (out ! i) ''files'' = Inr x \<and>
                     files_resolved (assets w') names x \<and> only_records x)))) \<and>
         (\<forall>b\<in>set out.
            (get_prop w' b ''__component'' = Inr (JStr ''shared.media'') \<longrightarrow>
               (\<exists>r. get_prop w' b ''file'' = Inr (JFile r))) \<and>
            (get_prop w' b ''__component'' = Inr (JStr ''shared.slider'') \<longrightarrow>
               (\<exists>x. get_prop w' b ''files'' = Inr x \<and> only_records x)))"
proof (rule conjI)
  from assms obtain bs where bs: "spread blocks = Inr bs"
    and loop: "updateBlocks_loop env bs [] w = (Inr out, w')"
    by (auto simp: updateBlocks_def split: sum.splits)
  from updateBlocks_loop_resolved_from [OF loop]
  have len: "length out = length bs"
    and each: "\<forall>i<length bs. resolved_from w w' (bs ! i) (out ! i)"
    by auto
  have "(get_prop w (bs ! i) ''__component'' = Inr (JStr ''shared.media'') \<longrightarrow>
          (\<exists>f found r. get_prop w (bs ! i) ''file'' = Inr (JStr f) \<and>
             get_prop w' (out ! i) ''__component'' = Inr (JStr ''shared.media'') \<and>
             get_prop w' (out ! i) ''file'' = Inr (JFile r) \<and>
             resolved_as (assets w') (JStr f) (found, JFile r))) \<and>
        (get_prop w (bs ! i) ''__component'' = Inr (JStr ''shared.slider'') \<longrightarrow>
          (\<exists>names x. get_prop w (bs ! i) ''files'' = Inr names \<and>
             get_prop w' (out ! i) ''__component'' = Inr (JStr ''shared.slider'') \<and>
             get_prop w' (out ! i) ''files'' = Inr x \<and>
             files_resolved (assets w') names x \<and> only_records x))"
    if i: "i < length bs" for i
  proof (intro conjI impI)
    assume tag: "get_prop w (bs ! i) ''__component'' = Inr (JStr ''shared.media'')"
    from each i have "resolved_from w w' (bs ! i) (out ! i)" by simp
    with tag obtain name x where x: "get_prop w (bs ! i) ''file'' = Inr name"
      "get_prop w' (out ! i) ''__component'' = Inr (JStr ''shared.media'')"
      "get_prop w' (out ! i) ''file'' = Inr x"
      "files_resolved (assets w') (JArr [name]) x"
      by (auto simp: resolved_from_def)
    from files_resolved_single [OF x(4)] x(1,2,3)
    show "\<exists>f found r. get_prop w (bs ! i) ''file'' = Inr (JStr f) \<and>
        get_prop w' (out ! i) ''__component'' = Inr (JStr ''shared.media'') \<and>
        get_prop w' (out ! i) ''file'' = Inr (JFile r) \<and>
        resolved_as (assets w') (JStr f) (found, JFile r)"
      by auto
  next
    assume tag: "get_prop w (bs ! i) ''__component'' = Inr (JStr ''shared.slider'')"
    from each i have "resolved_from w w' (bs ! i) (out ! i)" by simp
    with tag obtain names x where x: "get_prop w (bs ! i) ''files'' = Inr names"
      "get_prop w' (out ! i) ''__component'' = Inr (JStr ''shared.slider'')"
      "get_prop w' (out ! i) ''files'' = Inr x"
      "files_resolved (assets w') names x"
      by (auto simp: resolved_from_def)
    from files_resolved_records [OF x(4)] x
    show "\<exists>names x. get_prop w (bs ! i) ''files'' = Inr names \<and>
        get_prop w' (out ! i) ''__component'' = Inr (JStr ''shared.slider'') \<and>
        get_prop w' (out ! i) ''files'' = Inr x \<and>
        files_resolved (assets w') names x \<and> only_records x"
      by auto
  qed
  with bs len show "\<exists>bs. spread blocks = Inr bs \<and> length out = length bs \<and>
      (\<forall>i<length bs.
         (get_prop w (bs ! i) ''__component'' = Inr (JStr ''shared.media'') \<longrightarrow>
            (\<exists>f found r. get_prop w (bs ! i) ''file'' = Inr (JStr f) \<and>
               get_prop w' (out ! i) ''__component'' = Inr (JStr ''shared.media'') \<and>
               get_prop w' (out ! i) ''file'' = Inr (JFile r) \<and>
               resolved_as (assets w') (JStr f) (found, JFile r))) \<and>
         (get_prop w (bs ! i) ''__component'' = Inr (JStr ''shared.slider'') \<longrightarrow>
            (\<exists>names x. get_prop w (bs ! i) ''files'' = Inr names \<and>
               get_prop w' (out ! i) ''__component'' = Inr (JStr ''shared.slider'') \<and>
               get_prop w' (out ! i) ''files'' = Inr x \<and>
               files_resolved (assets w') names x \<and> only_records x)))"
    by blast
next
  show "\<forall>b\<in>set out.
      (get_prop w' b ''__component'' = Inr (JStr ''shared.media'') \<longrightarrow>
         (\<exists>r. get_prop w' b ''file'' = Inr (JFile r))) \<and>
      (get_prop w' b ''__component'' = Inr (JStr ''shared.slider'') \<longrightarrow>
         (\<exists>x. get_prop w' b ''files'' = Inr x \<and> only_records x))"
  proof
    fix b assume b: "b \<in> set out"
    from assms obtain bs where "updateBlocks_loop env bs [] w = (Inr out, w')"
      by (auto simp: updateBlocks_def split: sum.splits)
    from updateBlocks_loop_resolved [OF this] b have "resolved_block w' b"
      by (simp add: list_all_iff)
    then show "(get_prop w' b ''__component'' = Inr (JStr ''shared.media'') \<longrightarrow>
                (\<exists>r. get_prop w' b ''file'' = Inr (JFile r))) \<and>
             (get_prop w' b ''__component'' = Inr (JStr ''shared.slider'') \<longrightarrow>
                (\<exists>x. get_prop w' b ''files'' = Inr x \<and> only_records x))"
      by (auto simp: resolved_block_def is_record_def split: sum.splits jsval.splits)
  qed
qed

lemma library_run:
  "updateBlocks quiet (JArr [JRef 0, JRef 1, JRef 2]) library =
     (Inr [JRef 3, JRef 1, JRef 4], library_updated)"
  by (simp add: updateBlocks_def update_block_def alloc_def set_prop_def field_def
        library_def library_updated_def demo_blocks_def run_simps)

theorem updateBlocks_copies_witness:
  "prefix (heap library) (heap library_updated) \<and>
   updateBlocks quiet (JArr [JRef 0, JRef 1, JRef 2]) library =
     (Inr [JRef 3, JRef 1, JRef 4], library_updated) \<and>
   shallow_copy library library_updated (JRef 0) ''file'' (JRef 3) \<and>
   shallow_copy library library_updated (JRef 2) ''files'' (JRef 4)"
proof -
  from updateBlocks_copies [OF library_run]
  have frame: "prefix (heap library) (heap library_updated)"
    and "\<exists>bs. spread (JArr [JRef 0, JRef 1, JRef 2]) = Inr bs \<and>
      length [JRef 3, JRef 1, JRef 4] = length bs \<and>
      (\<forall>i<length bs. \<forall>t. get_prop library (bs ! i) ''__component'' = Inr t \<longrightarrow>
         (t \<noteq> JStr ''shared.media'' \<and> t \<noteq> JStr ''shared.slider'' \<longrightarrow>
            [JRef 3, JRef 1, JRef 4] ! i = bs ! i) \<and>
         (t = JStr ''shared.media'' \<longrightarrow>
            shallow_copy library library_updated (bs ! i) ''file'' ([JRef 3, JRef 1, JRef 4] ! i)) \<and>
         (t = JStr ''shared.slider'' \<longrightarrow>
            shallow_copy library library_updated (bs ! i) ''files'' ([JRef 3, JRef 1, JRef 4] ! i)))"
    by blast+
  then have each: "\<forall>i<3. \<forall>t. get_prop library ([JRef 0, JRef 1, JRef 2] ! i) ''__component'' = Inr t \<longrightarrow>
         (t = JStr ''shared.media'' \<longrightarrow>
            shallow_copy library library_updated ([JRef 0, JRef 1, JRef 2] ! i) ''file''
              ([JRef 3, JRef 1, JRef 4] ! i)) \<and>
         (t = JStr ''shared.slider'' \<longrightarrow>
            shallow_copy library library_updated ([JRef 0, JRef 1, JRef 2] ! i) ''files''
              ([JRef 3, JRef 1, JRef 4] ! i))"
    by simp
  have media: "get_prop library (JRef 0) ''__component'' = Inr (JStr ''shared.media'')"
    and slider: "get_prop library (JRef 2) ''__component'' = Inr (JStr ''shared.slider'')"
    by (simp_all add: library_def demo_blocks_def field_def)
  from each [rule_format, of 0] media
  have first: "shallow_copy library library_updated (JRef 0) ''file'' (JRef 3)"
    by simp
  from each [rule_format, of 2] slider
  have third: "shallow_copy library library_updated (JRef 2) ''files'' (JRef 4)"
    by simp
  from frame library_run first third show ?thesis by simp
qed

theorem updateBlocks_resolves_witness:
  "updateBlocks quiet (JArr [JRef 0, JRef 1, JRef 2]) library =
     (Inr [JRef 3, JRef 1, JRef 4], library_updated) \<and>
   get_prop library (JRef 0) ''file'' = Inr (JStr ''coffee-art.jpg'') \<and>
   get_prop library_updated (JRef 3) ''__component'' = Inr (JStr ''shared.media'') \<and>
   get_prop library_updated (JRef 3) ''file'' = Inr (JFile coffee) \<and>
   resolved_as (assets library_updated) (JStr ''coffee-art.jpg'') (True, JFile coffee) \<and>
   get_prop library_updated (JRef 4) ''__component'' = Inr (JStr ''shared.slider'') \<and>
   get_prop library_updated (JRef 4) ''files'' = Inr (JArr [JFile coffee, JFile beans]) \<and>
   files_resolved (assets library_updated)
     (JArr [JStr ''coffee-art.jpg'', JStr ''beans.jpg'']) (JArr [JFile coffee, JFile beans])"
proof -
  from updateBlocks_resolves [OF library_run]
  have each: "\<forall>i<3.
      (get_prop library ([JRef 0, JRef 1, JRef 2] ! i) ''__component'' =
         Inr (JStr ''shared.media'') \<longrightarrow>
         (\<exists>f found r. get_prop library ([JRef 0, JRef 1, JRef 2] ! i) ''file'' = Inr (JStr f) \<and>
            get_prop library_updated ([JRef 3, JRef 1, JRef 4] ! i) ''__component'' =
              Inr (JStr ''shared.media'') \<and>
            get_prop library_updated ([JRef 3, JRef 1, JRef 4] ! i) ''file'' = Inr (JFile r) \<and>
            resolved_as (assets library_updated) (JStr f) (found, JFile r))) \<and>
      (get_prop library ([JRef 0, JRef 1, JRef 2] ! i) ''__component'' =
         Inr (JStr ''shared.slider'') \<longrightarrow>
         (\<exists>names x. get_prop library ([JRef 0, JRef 1, JRef 2] ! i) ''files'' = Inr names \<and>
            get_prop library_updated ([JRef 3, JRef 1, JRef 4] ! i) ''__component'' =
              Inr (JStr ''shared.slider'') \<and>
            get_prop library_updated ([JRef 3, JRef 1, JRef 4] ! i) ''files'' = Inr x \<and>
            files_resolved (assets library_updated) names x \<and> only_records x))"
    by simp
  have media: "get_prop library (JRef 0) ''__component'' = Inr (JStr ''shared.media'')"
    and name: "get_prop library (JRef 0) ''file'' = Inr (JStr ''coffee-art.jpg'')"
    and slider: "get_prop library (JRef 2) ''__component'' = Inr (JStr ''shared.slider'')"
    and names: "get_prop library (JRef 2) ''files'' =
      Inr (JArr [JStr ''coffee-art.jpg'', JStr ''beans.jpg''])"
    by (simp_all add: library_def demo_blocks_def field_def)
  have copy: "get_prop library_updated (JRef 3) ''file'' = Inr (JFile coffee)"
    and copies: "get_prop library_updated (JRef 4) ''files'' =
      Inr (JArr [JFile coffee, JFile beans])"
    by (simp_all add: library_updated_def library_def demo_blocks_def field_def)
  from each [rule_format, of 0] media name copy
  have first: "get_prop library_updated (JRef 3) ''__component'' = Inr (JStr ''shared.media'')"
    "\<exists>found. resolved_as (assets library_updated) (JStr ''coffee-art.jpg'') (found, JFile coffee)"
    by auto
  from first(2) have found: "resolved_as (assets library_updated) (JStr ''coffee-art.jpg'')
      (True, JFile coffee)"
    by (auto simp: resolved_as_def coffee_def is_line_terminator_def)
  from each [rule_format, of 2] slider names copies
  have third: "get_prop library_updated (JRef 4) ''__component'' = Inr (JStr ''shared.slider'')"
    "files_resolved (assets library_updated)
       (JArr [JStr ''coffee-art.jpg'', JStr ''beans.jpg'']) (JArr [JFile coffee, JFile beans])"
    by auto
  from library_run name first(1) copy found third copies show ?thesis by simp
qed

subsection \<open>The document importer\<close>



















subsection \<open>The orchestrator\<close>

text \<open>
  C9, as amended. An error raised by the run-once guard, which is called before the
  \<open>try\<close> block, is raised by the entry point too. Once the guard has returned, the
  entry point returns normally: when the guard says this is no first run nothing more
  is done, and an error raised anywhere in the seed import (the permission grants and
  all entity imports) is caught and logged after \<open>Could not import seed data\<close>.
\<close>

theorem import_errors_suppressed:
  "(\<forall>e w1. isFirstRun env w = (Inl e, w1) \<longrightarrow> module_exports env sd w = (Inl e, w1)) \<and>
   (\<forall>b w1. isFirstRun env w = (Inr b, w1) \<longrightarrow>
      fst (module_exports env sd w) = Inr () \<and>
      (\<not> b \<longrightarrow> snd (module_exports env sd w) = w1) \<and>
      (\<forall>e w2. b \<and>
           importSeedData env sd
             (w1\<lparr>console := console w1 @ [Log ''Setting up the template...'']\<rparr>) = (Inl e, w2) \<longrightarrow>
         snd (module_exports env sd w) =
           w2\<lparr>console := console w2 @ [Log ''Could not import seed data'', ErrorValue e]\<rparr>))"
proof (intro conjI allI impI)
  fix e w1
  assume "isFirstRun env w = (Inl e, w1)"
  then show "module_exports env sd w = (Inl e, w1)"
    by (simp add: module_exports_def await_def)
next
  fix b w1
  assume guard: "isFirstRun env w = (Inr b, w1)"
  obtain r2 w2 where run: "importSeedData env sd
      (w1\<lparr>console := console w1 @ [Log ''Setting up the template...'']\<rparr>) = (r2, w2)"
    by (cases "importSeedData env sd
      (w1\<lparr>console := console w1 @ [Log ''Setting up the template...'']\<rparr>)")
  from guard run show "fst (module_exports env sd w) = Inr ()"
    by (cases r2)
       (simp_all add: module_exports_def await_def return_def try_catch_def console_log_def
          console_error_def)
next
  fix b w1
  assume "isFirstRun env w = (Inr b, w1)" and "\<not> b"
  then show "snd (module_exports env sd w) = w1"
    by (simp add: module_exports_def await_def return_def)
next
  fix b w1 e w2
  assume "isFirstRun env w = (Inr b, w1)"
    and "b \<and> importSeedData env sd
      (w1\<lparr>console := console w1 @ [Log ''Setting up the template...'']\<rparr>) = (Inl e, w2)"
  then show "snd (module_exports env sd w) =
      w2\<lparr>console := console w2 @ [Log ''Could not import seed data'', ErrorValue e]\<rparr>"
    by (simp add: module_exports_def await_def return_def try_catch_def console_log_def
          console_error_def)
qed

text \<open>
  C9 as stated fails: when the configuration store cannot be read, the entry point
  raises the store's error.
\<close>

theorem guard_error_propagates:
  "module_exports offline demo fresh = (Inl StoreError, fresh)"
  by (simp add: module_exports_def isFirstRun_def pluginStore_get_def await_def offline_def
        quiet_def)

lemma roleless_guard:
  "isFirstRun quiet roleless = (Inr True, roleless\<lparr>initHasRun := Some (JBool True)\<rparr>)"
  by (simp add: isFirstRun_def pluginStore_get_def pluginStore_set_def await_def return_def
        quiet_def roleless_def fresh_def)

lemma roleless_import:
  "importSeedData quiet demo
     (roleless\<lparr>initHasRun := Some (JBool True),
        console := [Log ''Setting up the template...'']\<rparr>) =
     (Inl TypeError,
      roleless\<lparr>initHasRun := Some (JBool True),
        console := [Log ''Setting up the template...'']\<rparr>)"
  by (simp add: importSeedData_def setPublicPermissions_def findOne_role_def
        permission_actions_def await_def quiet_def roleless_def fresh_def)

theorem import_errors_suppressed_witness:
  "module_exports quiet demo roleless =
     (Inr (),
      roleless\<lparr>initHasRun := Some (JBool True),
        console := [Log ''Setting up the template...'', Log ''Could not import seed data'',
                    ErrorValue TypeError]\<rparr>)"
proof -
  note caught = import_errors_suppressed [of quiet roleless demo, THEN conjunct2, rule_format,
      OF roleless_guard]
  have start: "console (roleless\<lparr>initHasRun := Some (JBool True)\<rparr>) = []"
    by (simp add: roleless_def fresh_def)
  from caught have "fst (module_exports quiet demo roleless) = Inr ()"
    by blast
  moreover from caught [THEN conjunct2, THEN conjunct2, rule_format,
      of TypeError "roleless\<lparr>initHasRun := Some (JBool True),
        console := [Log ''Setting up the template...'']\<rparr>"] roleless_import start
  have "snd (module_exports quiet demo roleless) =
      roleless\<lparr>initHasRun := Some (JBool True),
        console := [Log ''Setting up the template...'', Log ''Could not import seed data'',
                    ErrorValue TypeError]\<rparr>"
    by simp
  ultimately show ?thesis
    by (simp add: prod_eq_iff)
qed

end
